theory Spec2Isabelle
  imports Complex_Main "HOL-Library.Log_Nat"
begin

section \<open>The DisposableBrowser component\<close>

text \<open>
  A shallow embedding of the event handlers of the \<^verbatim>\<open>DisposableBrowser\<close> React
  component (the second document of \<^verbatim>\<open>src/src/app/layout.tsx\<close>).

  \<^item> The component's state (\<^verbatim>\<open>useState\<close> cells and \<^verbatim>\<open>useRef\<close> cells) is a record;
    every handler takes the state and returns the new one.
  \<^item> Everything a handler does to the outside world (a \<^verbatim>\<open>fetch\<close>, a call of
    \<^verbatim>\<open>preventDefault\<close>, a state setter, a console message, a clipboard access, a timer
    call) is appended, in program order, to the field \<open>trace\<close> of the state.
  \<^item> What the outside world answers to an \<^verbatim>\<open>await\<close> (whether the promise is
    fulfilled or rejected, and with what) is an argument of the handler. An asynchronous
    handler is modelled as one step from its call to its end: what other handlers do while
    it waits is not interleaved with it.
  \<^item> A JavaScript number is an IEEE-754 double: a real number, an infinity or NaN. A
    product, a quotient and a difference are rounded to the nearest double, overflow to
    an infinity included, as JavaScript does; comparisons are exact. What the DOM hands to
    a handler (\<^verbatim>\<open>e.deltaY\<close>, \<^verbatim>\<open>e.clientX\<close>, the bounding rectangle) is a finite
    number. Timestamps (\<^verbatim>\<open>Date.now()\<close>, integral milliseconds) are integers, whose
    differences are exact.
  \<^item> A JavaScript string is modelled as a \<^typ>\<open>string\<close>, a list of code units below 256.
\<close>

subsection \<open>Numbers\<close>

text \<open>
  The values of a number. \<open>Infinity\<close> stands for both infinities and the real zero for
  both zeros: the component never divides by, subtracts or compares a number that may be
  infinite or a zero of unknown sign in a way that would tell them apart (a product with an
  infinity is an infinity or NaN whatever the signs, and \<^verbatim>\<open>JSON.stringify\<close> writes
  \<^verbatim>\<open>null\<close> for both infinities and \<^verbatim>\<open>0\<close> for both zeros).
\<close>

datatype number = Finite real | Infinity | NaN

text \<open>
  Rounding to IEEE-754 binary64: 53 significant bits, to the nearest, a tie to the even
  significand. For \<open>r > 0\<close>, \<open>exponent r\<close> is the \<open>e\<close> with \<open>2 powi e \<le> r < 2 powi (e + 1)\<close>.
  The doubles between these two powers are the multiples of \<open>2 powi (e - 52)\<close>; below
  \<open>2 powi (- 1022)\<close> (the subnormal numbers) they are the multiples of \<open>2 powi (- 1074)\<close>.
  \<open>nearest a\<close> is the multiple nearest to \<open>a\<close>; when it reaches \<open>2 ^ 1024\<close> the result
  of the operation is an infinity.
\<close>

definition exponent :: "real \<Rightarrow> int" where
  "exponent r = (if 1 \<le> r then bitlen \<lfloor>r\<rfloor> - 1 else - bitlen (\<lceil>1 / r\<rceil> - 1))"

definition roundTiesToEven :: "real \<Rightarrow> int" where
  "roundTiesToEven z =
     (let n = \<lfloor>z\<rfloor>; f = z - of_int n
      in if f < 1 / 2 then n
         else if 1 / 2 < f then n + 1
         else if even n then n else n + 1)"

definition quantum :: "real \<Rightarrow> real" where
  "quantum a = 2 powi (max (exponent a) (- 1022) - 52)"

definition nearest :: "real \<Rightarrow> real" where
  "nearest a = of_int (roundTiesToEven (a / quantum a)) * quantum a"

definition binary64 :: "real \<Rightarrow> number" where
  "binary64 r =
     (if r = 0 then Finite 0
      else if 2 ^ 1024 \<le> nearest \<bar>r\<bar> then Infinity
      else Finite (sgn r * nearest \<bar>r\<bar>))"

text \<open>
  The JavaScript operators \<^verbatim>\<open>*\<close>, \<^verbatim>\<open>/\<close> and \<^verbatim>\<open>-\<close>. The component divides and
  subtracts only numbers that come from the DOM, which are finite; a factor of a product
  may be the result of an earlier operation.
\<close>

fun js_mul :: "number \<Rightarrow> number \<Rightarrow> number" where
  "js_mul (Finite a) (Finite b) = binary64 (a * b)"
| "js_mul (Finite a) Infinity = (if a = 0 then NaN else Infinity)"
| "js_mul Infinity (Finite b) = (if b = 0 then NaN else Infinity)"
| "js_mul Infinity Infinity = Infinity"
| "js_mul NaN b = NaN"
| "js_mul a NaN = NaN"

definition js_div :: "real \<Rightarrow> real \<Rightarrow> number" where
  "js_div a b = (if b = 0 then (if a = 0 then NaN else Infinity) else binary64 (a / b))"

definition js_sub :: "real \<Rightarrow> real \<Rightarrow> number" where
  "js_sub a b = binary64 (a - b)"

text \<open>
  A number in a JSON body: \<^verbatim>\<open>JSON.stringify\<close> writes a finite number as it is and
  \<^verbatim>\<open>null\<close> (\<open>None\<close>) for an infinity and for NaN.
\<close>

fun JSON_number :: "number \<Rightarrow> real option" where
  "JSON_number (Finite v) = Some v"
| "JSON_number Infinity = None"
| "JSON_number NaN = None"

subsection \<open>Data\<close>

text \<open>The settlement of an awaited promise.\<close>

datatype 'a outcome = Resolved 'a | Rejected

text \<open>
  The JavaScript values \<^verbatim>\<open>response.json()\<close> can yield (the result of
  \<^verbatim>\<open>JSON.parse\<close>: an object is the list of its members in the order of the text), and
  \<^verbatim>\<open>undefined\<close>, the value of a property that is not there.
\<close>

datatype js_value =
    JsUndefined
  | JsNull
  | JsBoolean bool
  | JsNumber number
  | JsString string
  | JsArray "js_value list"
  | JsObject "(string \<times> js_value) list"

text \<open>
  \<^verbatim>\<open>data.text\<close>. Reading a property of \<^verbatim>\<open>null\<close> or \<^verbatim>\<open>undefined\<close> throws a
  \<^verbatim>\<open>TypeError\<close>, which is \<open>None\<close> here. Of an object it is the value of the member
  named \<^verbatim>\<open>text\<close> (the last one, should the text of the response repeat the name) and
  \<^verbatim>\<open>undefined\<close> when there is none; a boolean, a number, a string and an array have no
  property of that name.
\<close>

fun dot_text :: "js_value \<Rightarrow> js_value option" where
  "dot_text JsUndefined = None"
| "dot_text JsNull = None"
| "dot_text (JsObject members) =
     Some (case map_of (rev members) ''text'' of None \<Rightarrow> JsUndefined | Some v \<Rightarrow> v)"
| "dot_text _ = Some JsUndefined"

text \<open>
  The test \<^verbatim>\<open>if (v)\<close>: \<^verbatim>\<open>undefined\<close>, \<^verbatim>\<open>null\<close>, \<^verbatim>\<open>false\<close>, zero, NaN and the
  empty string are falsy, every other value is truthy.
\<close>

fun truthy :: "js_value \<Rightarrow> bool" where
  "truthy JsUndefined = False"
| "truthy JsNull = False"
| "truthy (JsBoolean b) = b"
| "truthy (JsNumber (Finite r)) = (r \<noteq> 0)"
| "truthy (JsNumber Infinity) = True"
| "truthy (JsNumber NaN) = False"
| "truthy (JsString t) = (t \<noteq> [])"
| "truthy (JsArray vs) = True"
| "truthy (JsObject members) = True"

text \<open>A response: its body either parses as JSON or \<^verbatim>\<open>response.json()\<close> rejects.\<close>

type_synonym response = "js_value outcome"

text \<open>
  The JSON bodies the component posts to \<^verbatim>\<open>/event\<close>, one constructor per object
  literal of the source. The first argument is always the field \<^verbatim>\<open>session_id\<close>
  (\<open>None\<close> is \<^verbatim>\<open>null\<close>). A number is \<open>None\<close> when it is not finite, which
  \<^verbatim>\<open>JSON.stringify\<close> writes as \<^verbatim>\<open>null\<close>.
\<close>

datatype body =
    Scroll "string option" "real option" bool
    \<comment> \<open>\<^verbatim>\<open>{session_id, type: 'scroll', deltaY, isTrackpad}\<close>\<close>
  | Mouse "string option" "int option" "int option"
    \<comment> \<open>\<^verbatim>\<open>{session_id, type: 'mouse', x, y}\<close>\<close>
  | MouseClick "string option" "int option" "int option" int int
    \<comment> \<open>\<^verbatim>\<open>{session_id, type: 'mouse', x, y, click: true, button, clickCount}\<close>\<close>
  | Navigate "string option" string
    \<comment> \<open>\<^verbatim>\<open>{session_id, type: 'navigate', url}\<close>\<close>
  | NavigateAction "string option" string
    \<comment> \<open>\<^verbatim>\<open>{session_id, type: 'navigate', action}\<close>\<close>
  | ClipboardCopy "string option"
    \<comment> \<open>\<^verbatim>\<open>{session_id, type: 'clipboard', action: 'copy'}\<close>\<close>
  | ClipboardPaste "string option" string
    \<comment> \<open>\<^verbatim>\<open>{session_id, type: 'clipboard', action: 'paste', text}\<close>\<close>
  | Keyboard "string option" string bool bool bool bool
    \<comment> \<open>\<^verbatim>\<open>{session_id, type: 'keyboard', key, ctrl, alt, shift, meta}\<close>\<close>
  | KeyboardText "string option" string
    \<comment> \<open>\<^verbatim>\<open>{session_id, type: 'keyboard', text}\<close>\<close>

text \<open>A request: \<^verbatim>\<open>fetch(`${apiUrl}${path}`, {method: 'POST', body})\<close>.\<close>

datatype request = POST string body

text \<open>
  The effects. \<open>ClipboardWriteText v w\<close> is the call
  \<^verbatim>\<open>navigator.clipboard.writeText(v)\<close> together with the settlement \<open>w\<close> of its promise:
  the system clipboard has received \<open>v\<close> when \<open>w\<close> is \<open>Resolved ()\<close> and has not when
  it is \<open>Rejected\<close>.
\<close>

datatype effect =
    PreventDefault
  | Fetch request
  | SetIsLoading bool
  | SetUrl string
  | ConsoleError string
  | ClipboardReadText
  | ClipboardWriteText js_value "unit outcome"
  | SetTimeout nat int
  | ClearTimeout nat
  | UnhandledRejection

text \<open>A pending timer: its handle, the time it is due, and the request its callback posts.\<close>

record timer =
  handle :: nat
  due :: int
  callback :: request

text \<open>What \<^verbatim>\<open>getBoundingClientRect()\<close> returns for the video element.\<close>

record rect =
  left :: real
  top :: real
  width :: real
  height :: real

record browser =
  sessionId :: "string option"
  url :: string
  isLoading :: bool
  videoRef :: "rect option"
  scrollTimeout :: "nat option"
  lastScrollTime :: int
  timers :: "timer list"
  nextHandle :: nat
  trace :: "effect list"

text \<open>The state after the first render: the initial values of the hooks, no timer pending.\<close>

definition initial :: browser where
  "initial = \<lparr>sessionId = None, url = ''https://www.google.com'', isLoading = False,
     videoRef = None, scrollTimeout = None, lastScrollTime = 0, timers = [],
     nextHandle = 1, trace = []\<rparr>"

definition emit :: "effect \<Rightarrow> browser \<Rightarrow> browser" where
  "emit e s = s\<lparr>trace := trace s @ [e]\<rparr>"

text \<open>The requests among the effects, in the order in which they were started.\<close>

fun requests_of :: "effect list \<Rightarrow> request list" where
  "requests_of [] = []"
| "requests_of (Fetch r # es) = r # requests_of es"
| "requests_of (e # es) = requests_of es"

text \<open>\<^verbatim>\<open>!sessionId\<close>: true for \<^verbatim>\<open>null\<close> and for the empty string.\<close>

definition no_session :: "browser \<Rightarrow> bool" where
  "no_session s = (case sessionId s of None \<Rightarrow> True | Some i \<Rightarrow> i = [])"

text \<open>
  \<^verbatim>\<open>try { await fetch(.../event, body) } catch (error) { console.error(msg, error) }\<close>:
  the request is started; a rejection is logged and goes no further.
\<close>

definition try_fetch :: "body \<Rightarrow> string \<Rightarrow> response outcome \<Rightarrow> browser \<Rightarrow> browser" where
  "try_fetch b msg r s =
     (let s1 = emit (Fetch (POST ''/event'' b)) s
      in case r of Resolved _ \<Rightarrow> s1 | Rejected \<Rightarrow> emit (ConsoleError msg) s1)"

subsection \<open>Navigation\<close>

definition navigate :: "browser \<Rightarrow> string \<Rightarrow> response outcome \<Rightarrow> browser" where
  "navigate s targetUrl r =
     (if no_session s then s
      else
        let s1 = emit (SetIsLoading True) (s\<lparr>isLoading := True\<rparr>);
            s2 = emit (Fetch (POST ''/event'' (Navigate (sessionId s) targetUrl))) s1;
            s3 = (case r of
                    Resolved _ \<Rightarrow> emit (SetUrl targetUrl) (s2\<lparr>url := targetUrl\<rparr>)
                  | Rejected \<Rightarrow> emit (ConsoleError ''Navigation failed:'') s2)
        in emit (SetIsLoading False) (s3\<lparr>isLoading := False\<rparr>))"

text \<open>
  The click handlers of the back and forward buttons: an \<^verbatim>\<open>await fetch\<close> with neither
  a test of \<^verbatim>\<open>sessionId\<close> nor a \<^verbatim>\<open>try\<close>, so a rejection leaves the handler.
\<close>

definition backOnClick :: "browser \<Rightarrow> response outcome \<Rightarrow> browser" where
  "backOnClick s r =
     (let s1 = emit (Fetch (POST ''/event'' (NavigateAction (sessionId s) ''back''))) s
      in case r of Resolved _ \<Rightarrow> s1 | Rejected \<Rightarrow> emit UnhandledRejection s1)"

definition forwardOnClick :: "browser \<Rightarrow> response outcome \<Rightarrow> browser" where
  "forwardOnClick s r =
     (let s1 = emit (Fetch (POST ''/event'' (NavigateAction (sessionId s) ''forward''))) s
      in case r of Resolved _ \<Rightarrow> s1 | Rejected \<Rightarrow> emit UnhandledRejection s1)"

subsection \<open>Pointer events and the coordinate mapping\<close>

text \<open>
  \<^verbatim>\<open>Math.round(v)\<close> as it stands in a JSON body: a finite \<open>v\<close> is rounded to the nearest
  integer, a tie towards \<open>+\<infinity>\<close>; an infinity and NaN are returned as they are, which the
  body holds as \<^verbatim>\<open>null\<close> (\<open>None\<close>).
\<close>

fun Math_round :: "number \<Rightarrow> int option" where
  "Math_round (Finite v) = Some \<lfloor>v + 1 / 2\<rfloor>"
| "Math_round Infinity = None"
| "Math_round NaN = None"

text \<open>
  \<^verbatim>\<open>Math.round(x * (1280 / rect.width))\<close> and \<^verbatim>\<open>Math.round(y * (720 / rect.height))\<close>,
  as they are written into the JSON body.
\<close>

definition virtualX :: "number \<Rightarrow> real \<Rightarrow> int option" where
  "virtualX x w = Math_round (js_mul x (js_div 1280 w))"

definition virtualY :: "number \<Rightarrow> real \<Rightarrow> int option" where
  "virtualY y h = Math_round (js_mul y (js_div 720 h))"

definition coordinateMapper :: "number \<Rightarrow> number \<Rightarrow> real \<Rightarrow> real \<Rightarrow> int option \<times> int option" where
  "coordinateMapper x y w h = (virtualX x w, virtualY y h)"

record mouse_event =
  clientX :: real
  clientY :: real
  button :: int

definition handleMouseMove :: "browser \<Rightarrow> mouse_event \<Rightarrow> response outcome \<Rightarrow> browser" where
  "handleMouseMove s e r =
     (if no_session s then s
      else case videoRef s of
        None \<Rightarrow> s
      | Some rect \<Rightarrow>
          let x = js_sub (clientX e) (left rect);
              y = js_sub (clientY e) (top rect);
              (vx, vy) = coordinateMapper x y (width rect) (height rect)
          in try_fetch (Mouse (sessionId s) vx vy) ''Failed to send mouse event:'' r s)"

definition handleClick :: "browser \<Rightarrow> mouse_event \<Rightarrow> response outcome \<Rightarrow> browser" where
  "handleClick s e r =
     (if no_session s then s
      else case videoRef s of
        None \<Rightarrow> s
      | Some rect \<Rightarrow>
          let x = js_sub (clientX e) (left rect);
              y = js_sub (clientY e) (top rect);
              (vx, vy) = coordinateMapper x y (width rect) (height rect)
          in try_fetch (MouseClick (sessionId s) vx vy (button e) 1)
               ''Failed to send click event:'' r s)"

definition handleContextMenu :: "browser \<Rightarrow> mouse_event \<Rightarrow> response outcome \<Rightarrow> browser" where
  "handleContextMenu s e r =
     (let s0 = emit PreventDefault s
      in if no_session s then s0
         else case videoRef s of
           None \<Rightarrow> s0
         | Some rect \<Rightarrow>
             let x = js_sub (clientX e) (left rect);
                 y = js_sub (clientY e) (top rect);
                 (vx, vy) = coordinateMapper x y (width rect) (height rect)
             in try_fetch (MouseClick (sessionId s) vx vy 2 1)
                  ''Failed to send right-click event:'' r s0)"

subsection \<open>Keyboard events and the clipboard\<close>

record keyboard_event =
  key :: string
  ctrlKey :: bool
  altKey :: bool
  shiftKey :: bool
  metaKey :: bool

text \<open>
  What the promises a key handler awaits settle to. A call that throws before it returns a
  promise (\<^verbatim>\<open>navigator.clipboard\<close> is \<^verbatim>\<open>undefined\<close> outside a secure context) leaves
  the \<^verbatim>\<open>try\<close> block the way a rejection does and counts as one.
\<close>

record awaited =
  fetchResult :: "response outcome"
  readTextResult :: "string outcome"
  writeTextResult :: "unit outcome"

text \<open>
  The copy branch: the request, then \<^verbatim>\<open>response.json()\<close>, then \<^verbatim>\<open>data.text\<close>, then
  \<^verbatim>\<open>writeText(data.text)\<close> when that value is truthy, whatever its type. Whatever
  throws or is rejected inside the \<^verbatim>\<open>try\<close> ends in the same \<^verbatim>\<open>catch\<close>.
\<close>

definition copyBranch :: "browser \<Rightarrow> awaited \<Rightarrow> browser" where
  "copyBranch s a =
     (let s1 = emit (Fetch (POST ''/event'' (ClipboardCopy (sessionId s)))) s;
          failed = emit (ConsoleError ''Failed to copy:'')
      in case fetchResult a of
           Rejected \<Rightarrow> failed s1
         | Resolved Rejected \<Rightarrow> failed s1
         | Resolved (Resolved data) \<Rightarrow>
             (case dot_text data of
                None \<Rightarrow> failed s1
              | Some text \<Rightarrow>
                  if truthy text then
                    let s2 = emit (ClipboardWriteText text (writeTextResult a)) s1
                    in (case writeTextResult a of Resolved _ \<Rightarrow> s2 | Rejected \<Rightarrow> failed s2)
                  else s1))"

text \<open>The paste branch: \<^verbatim>\<open>readText()\<close> first; the request is built from what it yields.\<close>

definition pasteBranch :: "browser \<Rightarrow> awaited \<Rightarrow> browser" where
  "pasteBranch s a =
     (let s1 = emit ClipboardReadText s
      in case readTextResult a of
           Rejected \<Rightarrow> emit (ConsoleError ''Failed to paste:'') s1
         | Resolved t \<Rightarrow>
             try_fetch (ClipboardPaste (sessionId s) t) ''Failed to paste:'' (fetchResult a) s1)"

definition keyboardBranch :: "browser \<Rightarrow> keyboard_event \<Rightarrow> awaited \<Rightarrow> browser" where
  "keyboardBranch s e a =
     try_fetch (Keyboard (sessionId s) (key e) (ctrlKey e) (altKey e) (shiftKey e) (metaKey e))
       ''Failed to send keyboard event:'' (fetchResult a) s"

definition handleKeyDown :: "browser \<Rightarrow> keyboard_event \<Rightarrow> awaited \<Rightarrow> browser" where
  "handleKeyDown s e a =
     (if no_session s then s
      else if ctrlKey e \<or> metaKey e then
        (if key e = ''c'' then copyBranch s a
         else if key e = ''v'' then pasteBranch s a
         else keyboardBranch s e a)
      else keyboardBranch s e a)"

definition handleKeyPress :: "browser \<Rightarrow> keyboard_event \<Rightarrow> response outcome \<Rightarrow> browser" where
  "handleKeyPress s e r =
     (if no_session s then s
      else try_fetch (KeyboardText (sessionId s) (key e)) ''Failed to send keyboard event:'' r s)"

subsection \<open>Wheel events and the debounce timer\<close>

text \<open>
  \<^verbatim>\<open>clearTimeout(h)\<close> removes the pending timer with that handle, if there is one.
  \<^verbatim>\<open>setTimeout(f, delay)\<close> at time \<open>now\<close> adds a timer due at \<open>now + delay\<close> and
  returns a fresh handle; handles are positive, so a stored handle is truthy.
\<close>

definition clearTimeout :: "nat \<Rightarrow> browser \<Rightarrow> browser" where
  "clearTimeout h s = emit (ClearTimeout h) (s\<lparr>timers := filter (\<lambda>t. handle t \<noteq> h) (timers s)\<rparr>)"

definition setTimeout :: "request \<Rightarrow> int \<Rightarrow> int \<Rightarrow> browser \<Rightarrow> nat \<times> browser" where
  "setTimeout cb delay now s =
     (let h = nextHandle s
      in (h, emit (SetTimeout h (now + delay))
               (s\<lparr>timers := timers s @ [\<lparr>handle = h, due = now + delay, callback = cb\<rparr>],
                  nextHandle := Suc h\<rparr>)))"

text \<open>
  The wheel listener; \<open>now\<close> is what \<^verbatim>\<open>Date.now()\<close> returns and \<open>deltaY\<close> is
  \<^verbatim>\<open>e.deltaY\<close>. The callback of the timer writes the scaled delta into its JSON body.
\<close>

definition handleWheelEvent :: "browser \<Rightarrow> int \<Rightarrow> real \<Rightarrow> browser" where
  "handleWheelEvent s now deltaY =
     (let s0 = emit PreventDefault s
      in if no_session s then s0
         else
           let timeDiff = now - lastScrollTime s0;
               s1 = s0\<lparr>lastScrollTime := now\<rparr>;
               isTrackpad = (\<bar>deltaY\<bar> < 50);
               multiplier = Finite (if isTrackpad then 8 else 3);
               multiplier = (if timeDiff < 100 then js_mul multiplier (Finite 1.5) else multiplier);
               deltaY = js_mul (Finite deltaY) multiplier;
               s2 = (case scrollTimeout s1 of None \<Rightarrow> s1 | Some h \<Rightarrow> clearTimeout h s1);
               (h, s3) = setTimeout
                           (POST ''/event'' (Scroll (sessionId s) (JSON_number deltaY) isTrackpad))
                           16 now s2
           in s3\<lparr>scrollTimeout := Some h\<rparr>)"

text \<open>
  One turn of the event loop at time \<open>now\<close> that runs a timer task: the first pending
  timer that is due is removed and its callback runs, a \<^verbatim>\<open>fetch\<close> whose rejection is
  logged by its \<^verbatim>\<open>.catch\<close>. With no timer due nothing happens.
\<close>

definition fireTimer :: "browser \<Rightarrow> int \<Rightarrow> response outcome \<Rightarrow> browser" where
  "fireTimer s now r =
     (case filter (\<lambda>t. due t \<le> now) (timers s) of
        [] \<Rightarrow> s
      | t # _ \<Rightarrow>
          let s1 = emit (Fetch (callback t)) (s\<lparr>timers := filter (\<lambda>u. handle u \<noteq> handle t) (timers s)\<rparr>)
          in (case r of
                Resolved _ \<Rightarrow> s1
              | Rejected \<Rightarrow> emit (ConsoleError ''Failed to send scroll event:'') s1))"

text \<open>
  The effect that holds the wheel listener depends on \<^verbatim>\<open>sessionId\<close>. When
  \<^verbatim>\<open>setSessionId\<close> changes the identifier, the cleanup of the effect runs, which clears
  the timer whose handle \<^verbatim>\<open>scrollTimeout.current\<close> holds, and the listener is registered
  again with the new identifier.
\<close>

definition effectCleanup :: "browser \<Rightarrow> browser" where
  "effectCleanup s = (case scrollTimeout s of None \<Rightarrow> s | Some h \<Rightarrow> clearTimeout h s)"

definition setSessionId :: "string option \<Rightarrow> browser \<Rightarrow> browser" where
  "setSessionId i s = (if i = sessionId s then s else (effectCleanup s)\<lparr>sessionId := i\<rparr>)"

text \<open>
  A run of the scroll coalescer: wheel events, timer turns and changes of the session
  identifier, in the order they occur.
\<close>

datatype input = Wheel int real | Tick int "response outcome" | Session "string option"

fun step :: "browser \<Rightarrow> input \<Rightarrow> browser" where
  "step s (Wheel now deltaY) = handleWheelEvent s now deltaY"
| "step s (Tick now r) = fireTimer s now r"
| "step s (Session i) = setSessionId i s"

definition run :: "browser \<Rightarrow> input list \<Rightarrow> browser" where
  "run s ins = foldl step s ins"

text \<open>
  The single-slot discipline of the debounce timer: every pending timer is the one whose
  handle \<^verbatim>\<open>scrollTimeout.current\<close> holds, and there is at most one.
\<close>

definition single_slot :: "browser \<Rightarrow> bool" where
  "single_slot s =
     (length (timers s) \<le> 1 \<and> list_all (\<lambda>t. scrollTimeout s = Some (handle t)) (timers s))"


subsection \<open>The address bar\<close>

text \<open>
  Regular expressions, and \<^verbatim>\<open>RegExp.prototype.test\<close> for a pattern anchored at both ends
  (\<^verbatim>\<open>^...$\<close>, no flags): the whole string has to be in the language of the pattern. The
  test is computed with Brzozowski derivatives.
\<close>

datatype atom = WordChar | Ch char

datatype regex =
    Zero
  | Eps
  | OneOf "atom list"
  | Seq regex regex
  | Alt regex regex
  | Star regex

text \<open>\<^verbatim>\<open>r?\<close> and \<^verbatim>\<open>r+\<close>, and a literal sequence of characters.\<close>

definition Opt :: "regex \<Rightarrow> regex" where
  "Opt r = Alt r Eps"

definition Plus :: "regex \<Rightarrow> regex" where
  "Plus r = Seq r (Star r)"

fun Lit :: "string \<Rightarrow> regex" where
  "Lit [] = Eps"
| "Lit (c # cs) = Seq (OneOf [Ch c]) (Lit cs)"

text \<open>\<^verbatim>\<open>\w\<close> without flags: \<^verbatim>\<open>[A-Za-z0-9_]\<close>.\<close>

definition isWordChar :: "char \<Rightarrow> bool" where
  "isWordChar c =
     (let n = (of_char c :: nat)
      in (48 \<le> n \<and> n \<le> 57) \<or> (65 \<le> n \<and> n \<le> 90) \<or> n = 95 \<or> (97 \<le> n \<and> n \<le> 122))"

fun atom_matches :: "char \<Rightarrow> atom \<Rightarrow> bool" where
  "atom_matches c WordChar = isWordChar c"
| "atom_matches c (Ch d) = (c = d)"

fun nullable :: "regex \<Rightarrow> bool" where
  "nullable Zero = False"
| "nullable Eps = True"
| "nullable (OneOf as) = False"
| "nullable (Seq r s) = (nullable r \<and> nullable s)"
| "nullable (Alt r s) = (nullable r \<or> nullable s)"
| "nullable (Star r) = True"

fun deriv :: "char \<Rightarrow> regex \<Rightarrow> regex" where
  "deriv c Zero = Zero"
| "deriv c Eps = Zero"
| "deriv c (OneOf as) = (if list_ex (atom_matches c) as then Eps else Zero)"
| "deriv c (Seq r s) =
     (if nullable r then Alt (Seq (deriv c r) s) (deriv c s) else Seq (deriv c r) s)"
| "deriv c (Alt r s) = Alt (deriv c r) (deriv c s)"
| "deriv c (Star r) = Seq (deriv c r) (Star r)"

definition regex_test :: "regex \<Rightarrow> string \<Rightarrow> bool" where
  "regex_test r xs = nullable (foldl (\<lambda>r c. deriv c r) r xs)"

text \<open>
  The language of a pattern: the strings the pattern matches as a whole. It is what the
  test has to decide (lemma \<open>regex_test_lang\<close> below).
\<close>

inductive_set star :: "string set \<Rightarrow> string set" for A :: "string set" where
  star_empty: "[] \<in> star A"
| star_more: "u \<in> A \<Longrightarrow> v \<in> star A \<Longrightarrow> u @ v \<in> star A"

fun lang :: "regex \<Rightarrow> string set" where
  "lang Zero = {}"
| "lang Eps = {[]}"
| "lang (OneOf as) = {[c] | c. list_ex (atom_matches c) as}"
| "lang (Seq r s) = {u @ v | u v. u \<in> lang r \<and> v \<in> lang s}"
| "lang (Alt r s) = lang r \<union> lang s"
| "lang (Star r) = star (lang r)"

text \<open>
  The pattern of \<^verbatim>\<open>handleSubmit\<close>:
  \<^verbatim>\<open>/^(https?:\/\/)?([\w-]+\.)+[\w-]+(\/[\w- ./?%&=]*)?$/\<close>.
\<close>

definition urlPattern :: regex where
  "urlPattern =
     Seq (Opt (Seq (Lit ''http'') (Seq (Opt (Lit ''s'')) (Lit ''://''))))
    (Seq (Plus (Seq (Plus (OneOf [WordChar, Ch (CHR ''-'')])) (Lit ''.'')))
    (Seq (Plus (OneOf [WordChar, Ch (CHR ''-'')]))
         (Opt (Seq (Lit ''/'')
                   (Star (OneOf [WordChar, Ch (CHR ''-''), Ch (CHR '' ''), Ch (CHR ''.''), Ch (CHR ''/''),
                                 Ch (CHR ''?''), Ch (CHR ''%''), Ch (CHR ''&''), Ch (CHR ''='')]))))))"

text \<open>
  \<^verbatim>\<open>String.prototype.trim\<close>: white space and line terminators are removed from both ends;
  below 256 these are the code units 9 to 13, 32 and 160.
\<close>

definition isWhiteSpace :: "char \<Rightarrow> bool" where
  "isWhiteSpace c =
     (let n = (of_char c :: nat) in (9 \<le> n \<and> n \<le> 13) \<or> n = 32 \<or> n = 160)"

definition trim :: "string \<Rightarrow> string" where
  "trim xs = rev (dropWhile isWhiteSpace (rev (dropWhile isWhiteSpace xs)))"

definition startsWith :: "string \<Rightarrow> string \<Rightarrow> bool" where
  "startsWith xs p = (take (length p) xs = p)"

text \<open>
  \<^verbatim>\<open>encodeURIComponent\<close>: the unreserved characters \<^verbatim>\<open>A-Z a-z 0-9 - _ . ! ~ * ' ( )\<close>
  stay; every other code unit is written in UTF-8 (one byte below 128, two bytes from 128
  to 255) and each byte as \<^verbatim>\<open>%\<close> and two upper-case hexadecimal digits.
\<close>

definition hexDigit :: "nat \<Rightarrow> char" where
  "hexDigit n = ''0123456789ABCDEF'' ! n"

definition percent :: "nat \<Rightarrow> string" where
  "percent b = [CHR ''%'', hexDigit (b div 16), hexDigit (b mod 16)]"

definition unreserved :: "char \<Rightarrow> bool" where
  "unreserved c =
     (let n = (of_char c :: nat)
      in (48 \<le> n \<and> n \<le> 57) \<or> (65 \<le> n \<and> n \<le> 90) \<or> (97 \<le> n \<and> n \<le> 122)
         \<or> c \<in> set ''-_.!~*()'' \<or> n = 39)"

definition encodeChar :: "char \<Rightarrow> string" where
  "encodeChar c =
     (let n = (of_char c :: nat)
      in if unreserved c then [c]
         else if n < 128 then percent n
         else percent (192 + n div 64) @ percent (128 + n mod 64))"

definition encodeURIComponent :: "string \<Rightarrow> string" where
  "encodeURIComponent xs = concat (map encodeChar xs)"

text \<open>
  The submit handler of the address bar; \<open>url s\<close> is the text in the input field.
\<close>

definition handleSubmit :: "browser \<Rightarrow> response outcome \<Rightarrow> browser" where
  "handleSubmit s r =
     (let s0 = emit PreventDefault s;
          input = trim (url s);
          isUrl = regex_test urlPattern input
      in if isUrl then
           let urlWithProtocol = (if startsWith input ''http'' then input else ''https://'' @ input)
           in navigate s0 urlWithProtocol r
         else
           let searchUrl = ''https://www.google.com/search?q='' @ encodeURIComponent input
           in navigate s0 searchUrl r)"


subsection \<open>Observations and example states\<close>

text \<open>
  The calls of \<^verbatim>\<open>navigator.clipboard.writeText\<close>, each with the value handed over and
  the settlement of its promise, in order; the values the system clipboard has received,
  those of the calls that were fulfilled; and the messages logged with
  \<^verbatim>\<open>console.error\<close>.
\<close>

fun writeText_calls :: "effect list \<Rightarrow> (js_value \<times> unit outcome) list" where
  "writeText_calls [] = []"
| "writeText_calls (ClipboardWriteText v w # es) = (v, w) # writeText_calls es"
| "writeText_calls (e # es) = writeText_calls es"

definition writes_of :: "effect list \<Rightarrow> js_value list" where
  "writes_of es = map fst (filter (\<lambda>c. snd c = Resolved ()) (writeText_calls es))"

fun logs_of :: "effect list \<Rightarrow> string list" where
  "logs_of [] = []"
| "logs_of (ConsoleError msg # es) = msg # logs_of es"
| "logs_of (e # es) = logs_of es"

text \<open>Timer turns of a run, each with its time and the settlement of the request it may start.\<close>

fun ticks :: "(int \<times> response outcome) list \<Rightarrow> input list" where
  "ticks [] = []"
| "ticks ((now, r) # ks) = Tick now r # ticks ks"

text \<open>A burst of wheel events, each with its time and its raw delta.\<close>

fun wheels :: "(int \<times> real) list \<Rightarrow> input list" where
  "wheels [] = []"
| "wheels ((now, deltaY) # ws) = Wheel now deltaY # wheels ws"

text \<open>The state once the handshake has stored the session identifier \<^verbatim>\<open>"abc"\<close>.\<close>

definition connected :: browser where
  "connected = initial\<lparr>sessionId := Some ''abc''\<rparr>"


section \<open>Properties\<close>

subsection \<open>Traces\<close>

lemma requests_of_append: "requests_of (xs @ ys) = requests_of xs @ requests_of ys"
  by (induction xs rule: requests_of.induct) simp_all

lemma writeText_calls_append:
  "writeText_calls (xs @ ys) = writeText_calls xs @ writeText_calls ys"
  by (induction xs rule: writeText_calls.induct) simp_all

lemma writes_of_append: "writes_of (xs @ ys) = writes_of xs @ writes_of ys"
  by (simp add: writes_of_def writeText_calls_append)

lemma logs_of_append: "logs_of (xs @ ys) = logs_of xs @ logs_of ys"
  by (induction xs rule: logs_of.induct) simp_all

lemma connected_session: "\<not> no_session connected"
  by (simp add: connected_def initial_def no_session_def)

lemma connected_single_slot: "single_slot connected"
  by (simp add: connected_def initial_def single_slot_def)

subsection \<open>Navigation\<close>

text \<open>
  C10: a call of \<^verbatim>\<open>navigate\<close> while no session identifier is present changes nothing:
  the state it returns is the state it was given, so no request has been started (the
  trace is the same) and the loading flag and the URL are what they were.
\<close>

theorem navigate_without_session_is_noop:
  "sessionId s = None \<Longrightarrow> navigate s targetUrl r = s"
  by (simp add: navigate_def no_session_def)

theorem navigate_without_session_is_noop_witness:
  "sessionId initial = None
   \<and> navigate initial ''https://example.com'' (Resolved Rejected) = initial
   \<and> requests_of (trace (navigate initial ''https://example.com'' (Resolved Rejected))) = []
   \<and> isLoading (navigate initial ''https://example.com'' (Resolved Rejected)) = False
   \<and> url (navigate initial ''https://example.com'' (Resolved Rejected)) = ''https://www.google.com''"
  using navigate_without_session_is_noop [of initial "''https://example.com''" "Resolved Rejected"]
  by (simp add: initial_def)

text \<open>
  C3, as the code has it: with a session, \<^verbatim>\<open>navigate\<close> sets the loading flag, starts the
  navigate request, then either stores the target URL (the request's promise was fulfilled)
  or logs the failure and leaves the URL as it was (the promise was rejected), and in both
  cases clears the loading flag last.
\<close>

theorem navigate_with_session:
  assumes "\<not> no_session s"
  shows "trace (navigate s targetUrl r) =
           trace s @ [SetIsLoading True,
                      Fetch (POST ''/event'' (Navigate (sessionId s) targetUrl)),
                      (case r of Resolved _ \<Rightarrow> SetUrl targetUrl
                               | Rejected \<Rightarrow> ConsoleError ''Navigation failed:''),
                      SetIsLoading False]
         \<and> url (navigate s targetUrl r) = (case r of Resolved _ \<Rightarrow> targetUrl | Rejected \<Rightarrow> url s)
         \<and> isLoading (navigate s targetUrl r) = False"
  using assms by (cases r) (simp_all add: navigate_def emit_def Let_def)

theorem navigate_with_session_witness:
  "\<not> no_session connected
   \<and> trace (navigate connected ''https://example.com'' (Resolved Rejected)) =
       [SetIsLoading True, Fetch (POST ''/event'' (Navigate (Some ''abc'') ''https://example.com'')),
        SetUrl ''https://example.com'', SetIsLoading False]
   \<and> url (navigate connected ''https://example.com'' (Resolved Rejected)) = ''https://example.com''
   \<and> isLoading (navigate connected ''https://example.com'' (Resolved Rejected)) = False"
  using navigate_with_session [OF connected_session, of "''https://example.com''" "Resolved Rejected"]
  by (simp add: connected_def initial_def no_session_def)

text \<open>
  C3 as the specification words it fails: when the request is rejected the URL is not
  updated. Here the URL stays \<^verbatim>\<open>https://www.google.com\<close>.
\<close>

theorem navigate_rejected_keeps_url:
  "url (navigate connected ''https://example.com'' Rejected) = ''https://www.google.com''
   \<and> url (navigate connected ''https://example.com'' Rejected) \<noteq> ''https://example.com''"
  by (simp add: navigate_def connected_def initial_def no_session_def emit_def Let_def)


subsection \<open>Rounding to a double\<close>

text \<open>For a positive number, \<open>exponent\<close> is the exponent of its binade, and the only one.\<close>

lemma exponent_le:
  assumes "0 < r"
  shows "2 powi (exponent r) \<le> r"
proof (cases "1 \<le> r")
  case True
  then have pos: "0 < \<lfloor>r\<rfloor>" by simp
  from bitlen_bounds [OF pos] have "2 ^ nat (bitlen \<lfloor>r\<rfloor> - 1) \<le> \<lfloor>r\<rfloor>" by simp
  then have "real_of_int (2 ^ nat (bitlen \<lfloor>r\<rfloor> - 1)) \<le> real_of_int \<lfloor>r\<rfloor>"
    by (rule of_int_le_iff [THEN iffD2])
  also have "\<dots> \<le> r" by simp
  finally have "2 ^ nat (bitlen \<lfloor>r\<rfloor> - 1) \<le> r" by simp
  moreover from pos have "1 \<le> bitlen \<lfloor>r\<rfloor>"
    by (simp add: bitlen_alt_def)
  ultimately show ?thesis
    using True by (simp add: exponent_def power_int_def)
next
  case False
  with assms have "1 < 1 / r" by simp
  then have "1 < \<lceil>1 / r\<rceil>" by (simp add: less_ceiling_iff)
  then have pos: "0 < \<lceil>1 / r\<rceil> - 1" by simp
  let ?b = "bitlen (\<lceil>1 / r\<rceil> - 1)"
  from bitlen_bounds [OF pos] have "\<lceil>1 / r\<rceil> - 1 < 2 ^ nat ?b" by simp
  then have "\<lceil>1 / r\<rceil> \<le> 2 ^ nat ?b" by simp
  then have c: "real_of_int \<lceil>1 / r\<rceil> \<le> real_of_int (2 ^ nat ?b)"
    by (rule of_int_le_iff [THEN iffD2])
  have "1 / r \<le> real_of_int \<lceil>1 / r\<rceil>" by (rule le_of_int_ceiling)
  also note c
  finally have "1 / r \<le> 2 ^ nat ?b" by simp
  with assms have "1 \<le> r * 2 ^ nat ?b"
    by (simp add: field_simps)
  then have "inverse (2 ^ nat ?b) \<le> r"
    by (simp add: field_simps)
  moreover have "(2::real) powi (- ?b) = inverse (2 ^ nat ?b)"
    using bitlen_nonneg [of "\<lceil>1 / r\<rceil> - 1"] by (simp only: power_int_minus) (simp add: power_int_def)
  ultimately show ?thesis
    using False by (simp only: exponent_def if_False)
qed

lemma exponent_gt:
  assumes "0 < r"
  shows "r < 2 powi (exponent r + 1)"
proof (cases "1 \<le> r")
  case True
  then have pos: "0 < \<lfloor>r\<rfloor>" by simp
  let ?b = "bitlen \<lfloor>r\<rfloor>"
  from bitlen_bounds [OF pos] have "\<lfloor>r\<rfloor> < 2 ^ nat ?b" by simp
  then have "\<lfloor>r\<rfloor> + 1 \<le> 2 ^ nat ?b" by simp
  then have c: "real_of_int (\<lfloor>r\<rfloor> + 1) \<le> real_of_int (2 ^ nat ?b)"
    by (rule of_int_le_iff [THEN iffD2])
  have "r < real_of_int (\<lfloor>r\<rfloor> + 1)" by linarith
  also note c
  finally have "r < 2 ^ nat ?b" by simp
  moreover have "(2::real) powi ?b = 2 ^ nat ?b"
    using bitlen_nonneg [of "\<lfloor>r\<rfloor>"] by (simp add: power_int_def)
  ultimately show ?thesis
    using True by (simp add: exponent_def)
next
  case False
  with assms have "1 < 1 / r" by simp
  then have "1 < \<lceil>1 / r\<rceil>" by (simp add: less_ceiling_iff)
  then have pos: "0 < \<lceil>1 / r\<rceil> - 1" by simp
  let ?b = "bitlen (\<lceil>1 / r\<rceil> - 1)"
  have b: "1 \<le> ?b"
    using pos by (simp add: bitlen_alt_def)
  from bitlen_bounds [OF pos] have "2 ^ nat (?b - 1) \<le> \<lceil>1 / r\<rceil> - 1" by simp
  then have "real_of_int (2 ^ nat (?b - 1)) \<le> real_of_int (\<lceil>1 / r\<rceil> - 1)"
    by (rule of_int_le_iff [THEN iffD2])
  also have "real_of_int (\<lceil>1 / r\<rceil> - 1) < 1 / r" by linarith
  finally have "2 ^ nat (?b - 1) < 1 / r" by simp
  with assms have "r * 2 ^ nat (?b - 1) < 1"
    by (simp add: field_simps)
  then have "r < inverse (2 ^ nat (?b - 1))"
    by (simp add: field_simps)
  moreover have "(2::real) powi (- ?b + 1) = inverse (2 ^ nat (?b - 1))"
  proof -
    have "(2::real) powi (- ?b + 1) = 2 powi (- (?b - 1))" by simp
    also have "\<dots> = inverse (2 powi (?b - 1))" by (simp only: power_int_minus)
    also have "\<dots> = inverse (2 ^ nat (?b - 1))" using b by (simp add: power_int_def)
    finally show ?thesis .
  qed
  ultimately show ?thesis
    using False by (simp only: exponent_def if_False)
qed

lemma roundTiesToEven_error: "\<bar>of_int (roundTiesToEven z) - z\<bar> \<le> 1 / 2"
proof -
  have "of_int \<lfloor>z\<rfloor> \<le> z" "z < of_int \<lfloor>z\<rfloor> + 1" by linarith+
  then show ?thesis
    by (auto simp: roundTiesToEven_def Let_def)
qed

lemma roundTiesToEven_nonneg: "0 \<le> z \<Longrightarrow> 0 \<le> roundTiesToEven z"
  by (auto simp: roundTiesToEven_def Let_def)

lemma exponent_unique:
  assumes "0 < r" and "2 powi e \<le> r" and "r < 2 powi (e + 1)"
  shows "exponent r = e"
proof -
  have "2 powi (exponent r) < (2::real) powi (e + 1)"
    using exponent_le [OF assms(1)] assms(3) by linarith
  then have a: "exponent r < e + 1"
    using power_int_increasing [of "e + 1" "exponent r" "2::real"]
    by (cases "exponent r < e + 1") simp_all
  have "2 powi e < (2::real) powi (exponent r + 1)"
    using exponent_gt [OF assms(1)] assms(2) by linarith
  then have "e < exponent r + 1"
    using power_int_increasing [of "exponent r + 1" e "2::real"]
    by (cases "e < exponent r + 1") simp_all
  with a show ?thesis by simp
qed


text \<open>
  Rounding is off by at most half a quantum: relative to the number by at most
  \<open>1 / 2 ^ 53\<close>, and by at most \<open>2 powi (- 1075)\<close> among the subnormal numbers.
\<close>

lemma quantum_pos: "0 < quantum a"
  by (simp add: quantum_def)

lemma nearest_error:
  "\<bar>nearest a - a\<bar> \<le> quantum a / 2"
proof -
  define q where "q = quantum a"
  have q: "0 < q" by (simp add: q_def quantum_pos)
  have "nearest a - a = q * (of_int (roundTiesToEven (a / q)) - a / q)"
    using q by (simp add: nearest_def q_def field_simps)
  then have "\<bar>nearest a - a\<bar> = q * \<bar>of_int (roundTiesToEven (a / q)) - a / q\<bar>"
    using q by (simp add: abs_mult)
  also have "\<dots> \<le> q * (1 / 2)"
    using q roundTiesToEven_error [of "a / q"] by (intro mult_left_mono) simp_all
  finally show ?thesis by (simp add: q_def)
qed

lemma quantum_half_le:
  assumes "0 < a"
  shows "quantum a / 2 \<le> a / 2 ^ 53 + 2 powi (- 1075)"
proof (cases "- 1022 \<le> exponent a")
  case True
  then have "quantum a / 2 = 2 powi (exponent a) / 2 ^ 53"
    by (simp add: quantum_def max_def power_int_diff)
  also have "\<dots> \<le> a / 2 ^ 53"
    using exponent_le [OF assms] by (simp add: divide_right_mono)
  finally show ?thesis by simp
next
  case False
  then have "quantum a / 2 = 2 powi (- 1075)"
    by (simp add: quantum_def max_def power_int_diff)
  with assms show ?thesis by simp
qed

lemma nearest_nonneg: "0 \<le> a \<Longrightarrow> 0 \<le> nearest a"
  unfolding nearest_def using quantum_pos [of a]
  by (intro mult_nonneg_nonneg) (simp_all add: roundTiesToEven_nonneg)

lemma binary64_finite:
  assumes "\<bar>r\<bar> < 2 ^ 1023"
  shows "\<exists>v. binary64 r = Finite v \<and> \<bar>v - r\<bar> \<le> \<bar>r\<bar> / 2 ^ 53 + 2 powi (- 1075)
           \<and> (0 \<le> r \<longrightarrow> 0 \<le> v)"
proof (cases "r = 0")
  case True
  then show ?thesis by (simp add: binary64_def)
next
  case False
  define a where "a = \<bar>r\<bar>"
  from False have a: "0 < a" by (simp add: a_def)
  have e: "\<bar>nearest a - a\<bar> \<le> a / 2 ^ 53 + 2 powi (- 1075)"
    using nearest_error [of a] quantum_half_le [OF a] by linarith
  have "a / 2 ^ 53 \<le> 2 ^ 1023 / 2 ^ 53"
    using assms by (simp add: a_def divide_right_mono)
  moreover have "(2::real) powi (- 1075) \<le> 1"
    by (simp add: power_int_minus field_simps)
  ultimately have "nearest a < 2 ^ 1023 + 2 ^ 1023 / 2 ^ 53 + 1"
    using e assms by (simp add: a_def)
  also have "\<dots> \<le> (2::real) ^ 1024" by simp
  finally have fin: "\<not> 2 ^ 1024 \<le> nearest a" by simp
  have b: "binary64 r = Finite (sgn r * nearest a)"
    using False fin by (simp add: binary64_def a_def)
  have "sgn r * nearest a - r = sgn r * (nearest a - a)"
    by (auto simp: a_def sgn_if)
  then have "\<bar>sgn r * nearest a - r\<bar> = \<bar>nearest a - a\<bar>"
    using False by (simp add: abs_mult abs_sgn_eq)
  then have "\<bar>sgn r * nearest a - r\<bar> \<le> \<bar>r\<bar> / 2 ^ 53 + 2 powi (- 1075)"
    using e by (simp add: a_def)
  moreover have "0 \<le> r \<longrightarrow> 0 \<le> sgn r * nearest a"
    using nearest_nonneg [of a] a by (auto simp: sgn_if)
  ultimately show ?thesis using b by simp
qed


text \<open>
  A number with at most 53 significant bits whose exponent is in range is a double:
  rounding leaves it as it is.
\<close>

lemma roundTiesToEven_of_int: "roundTiesToEven (of_int j) = j"
  by (simp add: roundTiesToEven_def)

lemma nearest_exact:
  assumes n: "0 < n" "n < 2 ^ 53" and k: "- 1074 \<le> k"
  shows "nearest (of_int n * 2 powi k) = of_int n * 2 powi k"
proof -
  define a :: real where "a = of_int n * 2 powi k"
  define e where "e = max (exponent a) (- 1022)"
  from n have pos: "0 < a" by (simp add: a_def)
  have "of_int n < (2::real) ^ 53"
    using n by (metis of_int_less_numeral_power_cancel_iff)
  then have "a < 2 ^ 53 * 2 powi k"
    unfolding a_def by (simp add: mult_strict_right_mono)
  also have "\<dots> = 2 powi (53 + k)"
    by (simp add: power_int_add)
  finally have "2 powi (exponent a) < (2::real) powi (53 + k)"
    using exponent_le [OF pos] by simp
  then have "exponent a < 53 + k"
    using power_int_increasing [of "53 + k" "exponent a" "2::real"]
    by (cases "exponent a < 53 + k") simp_all
  with k have m: "0 \<le> k - (e - 52)" by (simp add: e_def)
  define j where "j = n * 2 ^ nat (k - (e - 52))"
  have "a / 2 powi (e - 52) = of_int n * 2 powi (k - (e - 52))"
    by (simp add: a_def power_int_diff)
  also have "\<dots> = of_int j"
    using m by (simp add: j_def power_int_def)
  finally have q: "a / 2 powi (e - 52) = of_int j" .
  then have aq: "of_int j * 2 powi (e - 52) = a"
    by (simp add: field_simps)
  have "nearest a = of_int (roundTiesToEven (a / 2 powi (e - 52))) * 2 powi (e - 52)"
    by (simp add: nearest_def quantum_def e_def)
  also have "\<dots> = a"
    by (simp only: q roundTiesToEven_of_int aq)
  finally show ?thesis by (simp add: a_def)
qed

lemma binary64_exact:
  assumes n: "\<bar>n\<bar> < 2 ^ 53" and k: "- 1074 \<le> k" "k \<le> 971"
  shows "binary64 (of_int n * 2 powi k) = Finite (of_int n * 2 powi k)"
proof (cases "n = 0")
  case True
  then show ?thesis by (simp add: binary64_def)
next
  case False
  define r :: real where "r = of_int n * 2 powi k"
  have a: "\<bar>r\<bar> = of_int \<bar>n\<bar> * 2 powi k"
    by (simp add: r_def abs_mult)
  from False n have "0 < \<bar>n\<bar>" "\<bar>n\<bar> < 2 ^ 53" by simp_all
  from nearest_exact [OF this k(1)] have ne: "nearest \<bar>r\<bar> = \<bar>r\<bar>"
    by (simp only: a)
  have "of_int \<bar>n\<bar> < (2::real) ^ 53"
    using n by (metis of_int_less_numeral_power_cancel_iff)
  then have "\<bar>r\<bar> < 2 ^ 53 * 2 powi k"
    unfolding a by (simp add: mult_strict_right_mono)
  also have "\<dots> = 2 powi (53 + k)"
    by (simp add: power_int_add)
  also have "\<dots> \<le> 2 powi 1024"
    using k by (intro power_int_increasing) simp_all
  finally have fin: "\<not> 2 ^ 1024 \<le> \<bar>r\<bar>" by simp
  from False have r0: "r \<noteq> 0" by (simp add: r_def)
  have "binary64 r = Finite (sgn r * \<bar>r\<bar>)"
    using r0 fin by (simp add: binary64_def ne)
  then show ?thesis by (simp add: sgn_mult_abs r_def)
qed


lemma binary64_of_int: "\<bar>n\<bar> < 2 ^ 53 \<Longrightarrow> binary64 (of_int n) = Finite (of_int n)"
  using binary64_exact [of n 0] by simp

lemma binary64_numeral:
  "(numeral n :: int) < 2 ^ 53 \<Longrightarrow> binary64 (numeral n) = Finite (numeral n)"
  using binary64_of_int [of "numeral n"] by simp


text \<open>A number of magnitude \<open>2 ^ 1024\<close> or more is rounded to an infinity.\<close>

lemma roundTiesToEven_ge: "of_int j \<le> z \<Longrightarrow> j \<le> roundTiesToEven z"
proof -
  assume "of_int j \<le> z"
  then have "j \<le> \<lfloor>z\<rfloor>" by (simp add: le_floor_iff)
  then show ?thesis by (auto simp: roundTiesToEven_def Let_def)
qed

lemma binary64_overflow:
  assumes "2 ^ 1024 \<le> \<bar>r\<bar>"
  shows "binary64 r = Infinity"
proof -
  define a where "a = \<bar>r\<bar>"
  define e where "e = exponent a"
  from assms have a: "0 < a" "2 ^ 1024 \<le> a" by (simp_all add: a_def) 
  have "(2::real) powi 1024 \<le> a" using a by simp
  also have "a < 2 powi (e + 1)" unfolding e_def by (rule exponent_gt [OF a(1)])
  finally have "(1024::int) < e + 1"
    using power_int_increasing [of "e + 1" 1024 "2::real"]
    by (cases "1024 < e + 1") simp_all
  then have e: "1024 \<le> e" by simp
  then have q: "quantum a = 2 powi (e - 52)"
    by (simp add: quantum_def e_def)
  have "(2::real) powi 52 = 2 powi e / 2 powi (e - 52)"
    by (simp add: power_int_diff)
  also have "\<dots> \<le> a / 2 powi (e - 52)"
    using exponent_le [OF a(1)] by (simp add: e_def divide_right_mono)
  finally have "real_of_int (2 ^ 52) \<le> a / 2 powi (e - 52)" by simp
  then have "2 ^ 52 \<le> roundTiesToEven (a / 2 powi (e - 52))"
    by (rule roundTiesToEven_ge)
  then have "real_of_int (2 ^ 52) \<le> of_int (roundTiesToEven (a / 2 powi (e - 52)))"
    by (rule of_int_le_iff [THEN iffD2])
  then have "2 ^ 52 * 2 powi (e - 52) \<le> nearest a"
    unfolding nearest_def q by (intro mult_right_mono) simp_all
  moreover have "(2::real) ^ 52 * 2 powi (e - 52) = 2 powi e"
    by (simp add: power_int_diff)
  moreover have "(2::real) powi 1024 \<le> 2 powi e"
    using e by (intro power_int_increasing) simp_all
  ultimately have "2 ^ 1024 \<le> nearest a" by simp
  moreover from a have "r \<noteq> 0" by (auto simp: a_def)
  ultimately show ?thesis by (simp add: binary64_def a_def)
qed


text \<open>
  The double nearest to a number whose binade is known; with it the rounding of a given
  number is a computation on integers.
\<close>

lemma binary64_normal:
  assumes "2 powi e \<le> r" and "r < 2 powi (e + 1)" and "- 1022 \<le> e" and "e \<le> 1021"
  shows "binary64 r = Finite (of_int (roundTiesToEven (r / 2 powi (e - 52))) * 2 powi (e - 52))"
proof -
  have "(0::real) < 2 powi e" by simp
  with assms(1) have r: "0 < r" by linarith
  have e: "exponent r = e" by (rule exponent_unique [OF r assms(1,2)])
  have "(2::real) powi (e + 1) \<le> 2 powi 1023"
    using assms(4) by (intro power_int_increasing) simp_all
  with assms(2) have "\<bar>r\<bar> < 2 ^ 1023" using r by simp
  from binary64_finite [OF this] obtain v where "binary64 r = Finite v" by blast
  then show ?thesis
    using r assms(3) by (simp add: binary64_def nearest_def quantum_def e max_def split: if_splits)
qed



text \<open>The multipliers with the burst factor: 12 and 4.5, both exact.\<close>

lemma js_mul_8: "js_mul (Finite 8) (Finite (3 / 2)) = Finite 12"
  by (simp add: binary64_numeral)

lemma js_mul_3: "js_mul (Finite 3) (Finite (3 / 2)) = Finite (9 / 2)"
  using binary64_exact [of 9 "- 1"] by (simp add: power_int_minus)

lemma binary64_9_2: "binary64 (9 / 2) = Finite (9 / 2)"
  using binary64_exact [of 9 "- 1"] by (simp add: power_int_minus)


subsection \<open>The coordinate mapping\<close>




text \<open>
  Below a width of \<open>2 powi (- 1014)\<close> the quotient \<^verbatim>\<open>1280 / rect.width\<close> is an
  infinity, and whatever the position the coordinate is sent as \<^verbatim>\<open>null\<close>. So is every
  coordinate on a surface of width zero.
\<close>

lemma mapper_overflow:
  assumes "0 < w" and "w \<le> 2 powi (- 1014)"
  shows "virtualX x w = None"
proof -
  have "(2::real) ^ 1024 \<le> 1280 * 2 ^ 1014" by simp
  also have "\<dots> = 1280 / 2 powi (- 1014)" by (simp add: power_int_minus)
  also have "\<dots> \<le> 1280 / w" using assms by (intro divide_left_mono) simp_all
  finally have "2 ^ 1024 \<le> \<bar>1280 / w\<bar>" using assms by simp
  then have "js_div 1280 w = Infinity"
    using assms by (simp add: js_div_def binary64_overflow)
  then show ?thesis
    by (cases x) (simp_all add: virtualX_def)
qed


lemma mapper_zero_width: "virtualX x 0 = None"
  by (cases x) (simp_all add: virtualX_def js_div_def)

text \<open>The quotients and products of the examples below.\<close>

lemma div_1280_200: "js_div 1280 200 = Finite (3602879701896397 / 562949953421312)"
  unfolding js_div_def
  using binary64_normal [of 2 "1280 / 200"]
  by (simp add: roundTiesToEven_def Let_def power_int_minus)

lemma mul_100_div_1280_200: "js_mul (Finite 100) (Finite (3602879701896397 / 562949953421312)) = Finite 640"
  using binary64_normal [of 9 "100 * (3602879701896397 / 562949953421312)"]
  by (simp add: roundTiesToEven_def Let_def power_int_minus)

lemma div_720_100: "js_div 720 100 = Finite (8106479329266893 / 1125899906842624)"
  unfolding js_div_def
  using binary64_normal [of 2 "720 / 100"]
  by (simp add: roundTiesToEven_def Let_def power_int_minus)

lemma mul_50_div_720_100: "js_mul (Finite 50) (Finite (8106479329266893 / 1125899906842624)) = Finite 360"
  using binary64_normal [of 8 "50 * (8106479329266893 / 1125899906842624)"]
  by (simp add: roundTiesToEven_def Let_def power_int_minus)






lemma mapper_200_100: "coordinateMapper (Finite 100) (Finite 50) 200 100 = (Some 640, Some 360)"
proof -
  have "virtualX (Finite 100) 200 = Some 640"
    by (simp only: virtualX_def div_1280_200 mul_100_div_1280_200 Math_round.simps) simp
  moreover have "virtualY (Finite 50) 100 = Some 360"
    by (simp only: virtualY_def div_720_100 mul_50_div_720_100 Math_round.simps) simp
  ultimately show ?thesis by (simp add: coordinateMapper_def)
qed





text \<open>
  The three pointer handlers send the mapper's result for the pointer position relative to
  the top-left corner of the bounding rectangle read at the time of the event.
\<close>

lemma pointer_requests:
  assumes "\<not> no_session s" and "videoRef s = Some rect"
  shows "requests_of (trace (handleMouseMove s e r)) =
           requests_of (trace s) @
             [POST ''/event''
                (Mouse (sessionId s)
                   (fst (coordinateMapper (js_sub (clientX e) (left rect)) (js_sub (clientY e) (top rect))
                           (width rect) (height rect)))
                   (snd (coordinateMapper (js_sub (clientX e) (left rect)) (js_sub (clientY e) (top rect))
                           (width rect) (height rect))))]"
    and "requests_of (trace (handleClick s e r)) =
           requests_of (trace s) @
             [POST ''/event''
                (MouseClick (sessionId s)
                   (fst (coordinateMapper (js_sub (clientX e) (left rect)) (js_sub (clientY e) (top rect))
                           (width rect) (height rect)))
                   (snd (coordinateMapper (js_sub (clientX e) (left rect)) (js_sub (clientY e) (top rect))
                           (width rect) (height rect)))
                   (button e) 1)]"
    and "requests_of (trace (handleContextMenu s e r)) =
           requests_of (trace s) @
             [POST ''/event''
                (MouseClick (sessionId s)
                   (fst (coordinateMapper (js_sub (clientX e) (left rect)) (js_sub (clientY e) (top rect))
                           (width rect) (height rect)))
                   (snd (coordinateMapper (js_sub (clientX e) (left rect)) (js_sub (clientY e) (top rect))
                           (width rect) (height rect)))
                   2 1)]"
  using assms
  by (cases r; simp add: handleMouseMove_def handleClick_def handleContextMenu_def try_fetch_def
        emit_def Let_def requests_of_append split: prod.splits)+


text \<open>A click 100 to the right of and 50 below the corner of a 200 by 100 surface.\<close>

lemma click_example:
  "requests_of (trace (handleClick
      (connected\<lparr>videoRef := Some \<lparr>left = 10, top = 20, width = 200, height = 100\<rparr>\<rparr>)
      \<lparr>clientX = 110, clientY = 70, button = 0\<rparr> r)) =
   [POST ''/event'' (MouseClick (Some ''abc'') (Some 640) (Some 360) 0 1)]"
proof -
  have "js_sub 110 10 = Finite 100" "js_sub 70 20 = Finite 50"
    by (simp_all add: js_sub_def binary64_numeral)
  with mapper_200_100 show ?thesis
    by (cases r; simp add: handleClick_def connected_def initial_def no_session_def try_fetch_def
          emit_def Let_def)
qed

subsection \<open>The session guard\<close>

text \<open>
  Every handler that tests \<^verbatim>\<open>sessionId\<close> starts no request and schedules no timer
  while there is no session.
\<close>

lemma guarded_handlers_drop:
  assumes "no_session s"
  shows "requests_of (trace (handleMouseMove s m r)) = requests_of (trace s)"
    and "requests_of (trace (handleClick s m r)) = requests_of (trace s)"
    and "requests_of (trace (handleContextMenu s m r)) = requests_of (trace s)"
    and "requests_of (trace (handleKeyDown s k a)) = requests_of (trace s)"
    and "requests_of (trace (handleKeyPress s k r)) = requests_of (trace s)"
    and "requests_of (trace (handleWheelEvent s now deltaY)) = requests_of (trace s)"
    and "timers (handleWheelEvent s now deltaY) = timers s"
    and "requests_of (trace (navigate s targetUrl r)) = requests_of (trace s)"
    and "requests_of (trace (handleSubmit s r)) = requests_of (trace s)"
  using assms
  by (simp_all add: handleMouseMove_def handleClick_def handleContextMenu_def handleKeyDown_def
        handleKeyPress_def handleWheelEvent_def navigate_def handleSubmit_def no_session_def
        emit_def Let_def requests_of_append)

text \<open>
  C1 at the back and forward buttons: in the first state of the component, where the session
  identifier is \<^verbatim>\<open>null\<close>, a click on either button starts a request to \<^verbatim>\<open>/event\<close>
  whose \<^verbatim>\<open>session_id\<close> is \<^verbatim>\<open>null\<close>, whatever becomes of the request.
\<close>

theorem back_forward_send_without_session:
  "sessionId initial = None
   \<and> requests_of (trace (backOnClick initial r)) =
       [POST ''/event'' (NavigateAction None ''back'')]
   \<and> requests_of (trace (forwardOnClick initial r)) =
       [POST ''/event'' (NavigateAction None ''forward'')]"
  by (cases r) (simp_all add: backOnClick_def forwardOnClick_def initial_def emit_def Let_def)

subsection \<open>Wheel events\<close>

lemma wheel_no_session:
  "no_session s \<Longrightarrow> handleWheelEvent s now deltaY = emit PreventDefault s"
  by (simp add: handleWheelEvent_def Let_def)

lemma single_slot_cases:
  "single_slot s \<Longrightarrow> timers s = [] \<or> (\<exists>t. timers s = [t] \<and> scrollTimeout s = Some (handle t))"
  by (cases "timers s") (auto simp: single_slot_def)

lemma wheel_session:
  assumes "\<not> no_session s" and "single_slot s"
  shows "handleWheelEvent s now deltaY =
     s\<lparr>lastScrollTime := now,
       scrollTimeout := Some (nextHandle s),
       timers := [\<lparr>handle = nextHandle s, due = now + 16,
                   callback = POST ''/event''
                     (Scroll (sessionId s)
                        (JSON_number (js_mul (Finite deltaY)
                           (Finite ((if \<bar>deltaY\<bar> < 50 then 8 else 3) *
                              (if now - lastScrollTime s < 100 then 1.5 else 1)))))
                        (\<bar>deltaY\<bar> < 50))\<rparr>],
       nextHandle := Suc (nextHandle s),
       trace := trace s @ PreventDefault #
                  (case scrollTimeout s of None \<Rightarrow> [] | Some h \<Rightarrow> [ClearTimeout h]) @
                  [SetTimeout (nextHandle s) (now + 16)]\<rparr>"
  using assms(1) single_slot_cases [OF assms(2)]
  by (auto simp: handleWheelEvent_def Let_def emit_def setTimeout_def clearTimeout_def
        js_mul_8 js_mul_3 simp del: js_mul.simps split: option.splits)

lemma fireTimer_not_due:
  "list_all (\<lambda>t. now < due t) (timers s) \<Longrightarrow> fireTimer s now r = s"
proof -
  assume "list_all (\<lambda>t. now < due t) (timers s)"
  then have "filter (\<lambda>t. due t \<le> now) (timers s) = []"
    by (induction "timers s") (auto simp: list_all_iff filter_empty_conv)
  then show ?thesis by (simp add: fireTimer_def)
qed

lemma fireTimer_due:
  assumes "timers s = [t]" and "due t \<le> now"
  shows "fireTimer s now r =
           s\<lparr>timers := [],
             trace := trace s @ Fetch (callback t) #
                        (case r of Resolved _ \<Rightarrow> []
                                 | Rejected \<Rightarrow> [ConsoleError ''Failed to send scroll event:''])\<rparr>"
  using assms by (cases r) (simp_all add: fireTimer_def emit_def Let_def)

lemma fireTimer_single_slot: "single_slot s \<Longrightarrow> single_slot (fireTimer s now r)"
proof -
  assume inv: "single_slot s"
  from single_slot_cases [OF inv] show ?thesis
  proof
    assume "timers s = []"
    then have "fireTimer s now r = s" by (simp add: fireTimer_def)
    with inv show ?thesis by simp
  next
    assume "\<exists>t. timers s = [t] \<and> scrollTimeout s = Some (handle t)"
    then obtain t where t: "timers s = [t]" by blast
    show ?thesis
    proof (cases "due t \<le> now")
      case True
      from fireTimer_due [OF t True] show ?thesis by (simp add: single_slot_def)
    next
      case False
      with t have "fireTimer s now r = s" by (simp add: fireTimer_def)
      with inv show ?thesis by simp
    qed
  qed
qed

lemma wheel_single_slot: "single_slot s \<Longrightarrow> single_slot (handleWheelEvent s now deltaY)"
proof (cases "no_session s")
  case True
  assume "single_slot s"
  then show ?thesis by (simp add: wheel_no_session [OF True] emit_def single_slot_def)
next
  case False
  assume "single_slot s"
  from wheel_session [OF False this] show ?thesis by (simp add: single_slot_def)
qed

lemma setSessionId_single_slot: "single_slot s \<Longrightarrow> single_slot (setSessionId i s)"
proof -
  assume inv: "single_slot s"
  from single_slot_cases [OF inv] have "timers (effectCleanup s) = []"
    by (auto simp: effectCleanup_def clearTimeout_def emit_def split: option.splits)
  then have "single_slot ((effectCleanup s)\<lparr>sessionId := i\<rparr>)"
    by (simp add: single_slot_def)
  with inv show ?thesis
    by (simp add: setSessionId_def)
qed

lemma step_single_slot: "single_slot s \<Longrightarrow> single_slot (step s i)"
  by (cases i) (simp_all add: wheel_single_slot fireTimer_single_slot setSessionId_single_slot)

lemma run_single_slot: "single_slot s \<Longrightarrow> single_slot (run s ins)"
  unfolding run_def by (induction ins arbitrary: s) (simp_all add: step_single_slot)

text \<open>Every state of a run that starts with no timer pending keeps the discipline.\<close>

lemma single_slot_reachable: "timers s = [] \<Longrightarrow> single_slot (run s ins)"
  by (rule run_single_slot) (simp add: single_slot_def)

lemma run_append: "run s (xs @ ys) = run (run s xs) ys"
  by (simp add: run_def)

lemma run_Cons: "run s (x # xs) = run (step s x) xs"
  by (simp add: run_def)

lemma run_Nil: "run s [] = s"
  by (simp add: run_def)

lemma ticks_Cons: "ticks (k # ks) = Tick (fst k) (snd k) # ticks ks"
  by (cases k) simp

lemma ticks_idle: "timers s = [] \<Longrightarrow> run s (ticks ks) = s"
proof (induction ks)
  case Nil
  then show ?case by (simp add: run_Nil)
next
  case (Cons k ks)
  from Cons.prems have "fireTimer s (fst k) (snd k) = s" by (simp add: fireTimer_def)
  with Cons show ?case by (simp add: run_Cons ticks_Cons)
qed

lemma ticks_pending:
  "timers s = [t] \<Longrightarrow>
     requests_of (trace (run s (ticks ks))) =
       requests_of (trace s) @ (if list_ex (\<lambda>k. due t \<le> fst k) ks then [callback t] else [])"
proof (induction ks)
  case Nil
  then show ?case by (simp add: run_Nil)
next
  case (Cons k ks)
  show ?case
  proof (cases "due t \<le> fst k")
    case True
    let ?s' = "fireTimer s (fst k) (snd k)"
    from fireTimer_due [OF Cons.prems True, of "snd k"]
    have idle: "timers ?s' = []"
      and req: "requests_of (trace ?s') = requests_of (trace s) @ [callback t]"
      by (cases "snd k"; simp add: requests_of_append)+
    from ticks_idle [OF idle] req True show ?thesis
      by (simp add: run_Cons ticks_Cons)
  next
    case False
    with Cons.prems have "fireTimer s (fst k) (snd k) = s" by (simp add: fireTimer_def)
    with Cons False show ?thesis by (simp add: run_Cons ticks_Cons)
  qed
qed

lemma ticks_early:
  "timers s = [t] \<Longrightarrow> list_all (\<lambda>k. fst k < due t) ks \<Longrightarrow> run s (ticks ks) = s"
proof (induction ks)
  case Nil
  then show ?case by (simp add: run_Nil)
next
  case (Cons k ks)
  then have "fireTimer s (fst k) (snd k) = s" by (simp add: fireTimer_def)
  with Cons show ?case by (simp add: run_Cons ticks_Cons)
qed

lemma wheel_requests:
  assumes "single_slot s"
  shows "requests_of (trace (handleWheelEvent s now deltaY)) = requests_of (trace s)"
proof (cases "no_session s")
  case True
  then show ?thesis by (simp add: wheel_no_session emit_def requests_of_append)
next
  case False
  from wheel_session [OF False assms] show ?thesis
    by (simp add: requests_of_append split: option.splits)
qed

lemma wheel_timers:
  assumes "\<not> no_session s" and "single_slot s"
  shows "timers (handleWheelEvent s now deltaY) =
           [\<lparr>handle = nextHandle s, due = now + 16,
             callback = POST ''/event''
               (Scroll (sessionId s)
                  (JSON_number (js_mul (Finite deltaY)
                     (Finite ((if \<bar>deltaY\<bar> < 50 then 8 else 3) *
                        (if now - lastScrollTime s < 100 then 1.5 else 1)))))
                  (\<bar>deltaY\<bar> < 50))\<rparr>]"
  by (simp add: wheel_session [OF assms])

lemma wheel_keeps_session: "sessionId (handleWheelEvent s now deltaY) = sessionId s"
  by (simp add: handleWheelEvent_def Let_def emit_def setTimeout_def clearTimeout_def
           split: option.splits prod.splits)

lemma wheel_lastScrollTime:
  "\<not> no_session s \<Longrightarrow> lastScrollTime (handleWheelEvent s now deltaY) = now"
  by (simp add: handleWheelEvent_def Let_def emit_def setTimeout_def clearTimeout_def
           split: option.splits prod.splits)

lemma wheel_then_ticks:
  assumes ses: "\<not> no_session s" and inv: "single_slot s"
  shows "requests_of (trace (run (handleWheelEvent s now deltaY) (ticks ks))) =
           requests_of (trace s) @
             (if list_ex (\<lambda>k. now + 16 \<le> fst k) ks
              then [POST ''/event''
                      (Scroll (sessionId s)
                         (JSON_number (js_mul (Finite deltaY)
                            (Finite ((if \<bar>deltaY\<bar> < 50 then 8 else 3) *
                               (if now - lastScrollTime s < 100 then 1.5 else 1)))))
                         (\<bar>deltaY\<bar> < 50))]
              else [])"
  using ticks_pending [OF wheel_timers [OF ses inv, of now deltaY], of ks]
  by (simp add: wheel_requests [OF inv])

lemma two_wheel_events:
  assumes ses: "\<not> no_session s" and inv: "single_slot s"
    and early: "list_all (\<lambda>k. fst k \<le> t + 10) ks1"
  shows "requests_of (trace (run s (Wheel t d1 # ticks ks1 @ Wheel (t + 10) d2 # ticks ks2))) =
           requests_of (trace s) @
             (if list_ex (\<lambda>k. t + 26 \<le> fst k) ks2
              then [POST ''/event''
                      (Scroll (sessionId s)
                         (JSON_number (js_mul (Finite d2) (Finite ((if \<bar>d2\<bar> < 50 then 8 else 3) * 1.5))))
                         (\<bar>d2\<bar> < 50))]
              else [])"
proof -
  let ?s1 = "handleWheelEvent s t d1"
  have ses1: "\<not> no_session ?s1"
    using ses by (simp add: no_session_def wheel_keeps_session)
  have inv1: "single_slot ?s1"
    by (rule wheel_single_slot [OF inv])
  obtain t1 where t1: "timers ?s1 = [t1]" and due1: "due t1 = t + 16"
    using wheel_timers [OF ses inv, of t d1] by simp
  have "list_all (\<lambda>k. fst k < due t1) ks1"
    using early due1 by (auto simp: list_all_iff)
  then have idle: "run ?s1 (ticks ks1) = ?s1"
    by (rule ticks_early [OF t1])
  have "run s (Wheel t d1 # ticks ks1 @ Wheel (t + 10) d2 # ticks ks2) =
          run (handleWheelEvent ?s1 (t + 10) d2) (ticks ks2)"
    by (simp add: run_Cons run_append idle)
  moreover have "(t + 10) + 16 = t + 26" by simp
  ultimately show ?thesis
    using wheel_then_ticks [OF ses1 inv1, of "t + 10" d2 ks2]
    by (simp only: wheel_keeps_session wheel_lastScrollTime [OF ses] wheel_requests [OF inv]) simp
qed

lemma wheels_Cons: "wheels (w # ws) = Wheel (fst w) (snd w) # wheels ws"
  by (cases w) simp

lemma wheel_no_session_iff: "no_session (handleWheelEvent s now deltaY) = no_session s"
  by (simp add: no_session_def wheel_keeps_session)

lemma run_wheels:
  "\<not> no_session s \<Longrightarrow> single_slot s \<Longrightarrow>
     sessionId (run s (wheels ws)) = sessionId s
   \<and> single_slot (run s (wheels ws))
   \<and> requests_of (trace (run s (wheels ws))) = requests_of (trace s)
   \<and> lastScrollTime (run s (wheels ws)) = (if ws = [] then lastScrollTime s else fst (last ws))"
proof (induction ws arbitrary: s)
  case Nil
  then show ?case by (simp add: run_Nil)
next
  case (Cons w ws)
  let ?s' = "handleWheelEvent s (fst w) (snd w)"
  from Cons.prems have "\<not> no_session ?s'" and "single_slot ?s'"
    by (simp_all add: wheel_no_session_iff wheel_single_slot)
  from Cons.IH [OF this] Cons.prems show ?case
    by (simp add: wheels_Cons run_Cons wheel_keeps_session wheel_requests wheel_lastScrollTime)
qed

lemma burst_then_ticks:
  assumes ses: "\<not> no_session s" and inv: "single_slot s"
  shows "requests_of (trace (run s (wheels ws @ Wheel now deltaY # ticks ks))) =
           requests_of (trace s) @
             (if list_ex (\<lambda>k. now + 16 \<le> fst k) ks
              then [POST ''/event''
                      (Scroll (sessionId s)
                         (JSON_number (js_mul (Finite deltaY)
                            (Finite ((if \<bar>deltaY\<bar> < 50 then 8 else 3) *
                               (if now - (if ws = [] then lastScrollTime s else fst (last ws)) < 100
                                then 1.5 else 1)))))
                         (\<bar>deltaY\<bar> < 50))]
              else [])"
proof -
  let ?s' = "run s (wheels ws)"
  from run_wheels [OF ses inv, of ws]
  have w: "sessionId ?s' = sessionId s" "single_slot ?s'"
    "requests_of (trace ?s') = requests_of (trace s)"
    "lastScrollTime ?s' = (if ws = [] then lastScrollTime s else fst (last ws))"
    by simp_all
  have ses': "\<not> no_session ?s'"
    using ses by (simp add: no_session_def w(1))
  from wheel_then_ticks [OF ses' w(2), of now deltaY ks] show ?thesis
    by (simp only: run_append run_Cons step.simps w)
qed

text \<open>
  C4: in a state that keeps the single-slot discipline and has a session,
  \<^item> after any run of wheel events, timer turns and changes of the session identifier at
    most one timer is pending;
  \<^item> a wheel event at time \<open>now\<close> leaves exactly one pending timer, its own, due at
    \<open>now + 16\<close>: whatever was pending before has been cancelled;
  \<^item> after a burst of wheel events with no timer turn between them, the timer turns that
    follow start at most one request, the scroll message with the scaled delta and the
    device class of the last event of the burst, and they start it as soon as one of them
    comes at or after 16 ms after that event;
  \<^item> of two wheel events 10 ms apart, with the timer turns between them no later than the
    second event, exactly one message is sent once a timer turn comes 16 ms after the
    second event; it carries the second event's delta, scaled with the burst factor 1.5.
\<close>

theorem scroll_coalescer:
  assumes inv: "single_slot s" and ses: "\<not> no_session s"
  shows "length (timers (run s ins)) \<le> 1
       \<and> timers (handleWheelEvent s now deltaY) =
           [\<lparr>handle = nextHandle s, due = now + 16,
             callback = POST ''/event''
               (Scroll (sessionId s)
                  (JSON_number (js_mul (Finite deltaY)
                     (Finite ((if \<bar>deltaY\<bar> < 50 then 8 else 3) *
                        (if now - lastScrollTime s < 100 then 1.5 else 1)))))
                  (\<bar>deltaY\<bar> < 50))\<rparr>]
       \<and> requests_of (trace (run s (wheels ws @ Wheel now deltaY # ticks ks))) =
           requests_of (trace s) @
             (if list_ex (\<lambda>k. now + 16 \<le> fst k) ks
              then [POST ''/event''
                      (Scroll (sessionId s)
                         (JSON_number (js_mul (Finite deltaY)
                            (Finite ((if \<bar>deltaY\<bar> < 50 then 8 else 3) *
                               (if now - (if ws = [] then lastScrollTime s else fst (last ws)) < 100
                                then 1.5 else 1)))))
                         (\<bar>deltaY\<bar> < 50))]
              else [])
       \<and> (list_all (\<lambda>k. fst k \<le> t + 10) ks1 \<longrightarrow>
           requests_of (trace (run s (Wheel t d1 # ticks ks1 @ Wheel (t + 10) d2 # ticks ks2))) =
             requests_of (trace s) @
               (if list_ex (\<lambda>k. t + 26 \<le> fst k) ks2
                then [POST ''/event''
                        (Scroll (sessionId s)
                           (JSON_number (js_mul (Finite d2) (Finite ((if \<bar>d2\<bar> < 50 then 8 else 3) * 1.5))))
                           (\<bar>d2\<bar> < 50))]
                else []))"
proof -
  have "single_slot (run s ins)" by (rule run_single_slot [OF inv])
  then have "length (timers (run s ins)) \<le> 1" by (simp add: single_slot_def)
  moreover note wheel_timers [OF ses inv, of now deltaY]
  moreover note burst_then_ticks [OF ses inv, of ws now deltaY ks]
  moreover have "list_all (\<lambda>k. fst k \<le> t + 10) ks1 \<longrightarrow>
           requests_of (trace (run s (Wheel t d1 # ticks ks1 @ Wheel (t + 10) d2 # ticks ks2))) =
             requests_of (trace s) @
               (if list_ex (\<lambda>k. t + 26 \<le> fst k) ks2
                then [POST ''/event''
                        (Scroll (sessionId s)
                           (JSON_number (js_mul (Finite d2) (Finite ((if \<bar>d2\<bar> < 50 then 8 else 3) * 1.5))))
                           (\<bar>d2\<bar> < 50))]
                else [])"
    using two_wheel_events [OF ses inv] by blast
  ultimately show ?thesis by blast
qed

theorem scroll_coalescer_witness:
  "single_slot connected \<and> \<not> no_session connected
   \<and> list_all (\<lambda>k. fst k \<le> 1000 + 10) [(1005 :: int, Resolved (Resolved JsNull))]
   \<and> length (timers (run connected [Wheel 1000 120, Session (Some ''xyz''), Wheel 1010 40])) \<le> 1
   \<and> timers (handleWheelEvent connected 1000 120) =
        [\<lparr>handle = 1, due = 1016, callback = POST ''/event'' (Scroll (Some ''abc'') (Some 360) False)\<rparr>]
   \<and> requests_of (trace (run connected
        (wheels [(900, 120), (905, 120), (912, 40)] @ Wheel 1000 120 #
         ticks [(1010, Rejected), (1016, Rejected), (1040, Rejected)]))) =
        [POST ''/event'' (Scroll (Some ''abc'') (Some 540) False)]
   \<and> requests_of (trace (run connected
        (Wheel 1000 120 # ticks [(1005, Resolved (Resolved JsNull))] @
         Wheel (1000 + 10) 40 # ticks [(1020, Rejected), (1026, Rejected), (1030, Rejected)]))) =
        [POST ''/event'' (Scroll (Some ''abc'') (Some 480) True)]"
  using scroll_coalescer [OF connected_single_slot connected_session,
      of "[Wheel 1000 120, Session (Some ''xyz''), Wheel 1010 40]" 1000 120
         "[(900, 120), (905, 120), (912, 40)]"
         "[(1010, Rejected), (1016, Rejected), (1040, Rejected)]"
         1000 "[(1005, Resolved (Resolved JsNull))]" 120 40
         "[(1020, Rejected), (1026, Rejected), (1030, Rejected)]"]
  by (simp add: connected_def initial_def single_slot_def no_session_def run_def
        handleWheelEvent_def fireTimer_def setTimeout_def clearTimeout_def emit_def Let_def
        setSessionId_def effectCleanup_def binary64_numeral binary64_9_2)








text \<open>
  C8: whatever the state, with a session or without, the first thing the wheel listener
  does is to call \<^verbatim>\<open>preventDefault\<close> on the event.
\<close>

theorem wheel_prevents_default:
  "\<exists>es. trace (handleWheelEvent s now deltaY) = trace s @ PreventDefault # es"
  by (simp add: handleWheelEvent_def Let_def emit_def setTimeout_def clearTimeout_def
        split: option.splits)

subsection \<open>The clipboard shortcuts\<close>

lemma keydown_copy:
  "\<not> no_session s \<Longrightarrow> ctrlKey e \<or> metaKey e \<Longrightarrow> key e = ''c'' \<Longrightarrow>
     handleKeyDown s e a = copyBranch s a"
  by (simp add: handleKeyDown_def)

lemma keydown_paste:
  "\<not> no_session s \<Longrightarrow> ctrlKey e \<or> metaKey e \<Longrightarrow> key e = ''v'' \<Longrightarrow>
     handleKeyDown s e a = pasteBranch s a"
  by (simp add: handleKeyDown_def)

lemma copyBranch_trace:
  "trace (copyBranch s a) =
     trace s @ Fetch (POST ''/event'' (ClipboardCopy (sessionId s))) #
       (case fetchResult a of
          Resolved (Resolved data) \<Rightarrow>
            (case dot_text data of
               None \<Rightarrow> [ConsoleError ''Failed to copy:'']
             | Some v \<Rightarrow>
                 if truthy v then
                   ClipboardWriteText v (writeTextResult a) #
                     (case writeTextResult a of Resolved _ \<Rightarrow> []
                                              | Rejected \<Rightarrow> [ConsoleError ''Failed to copy:''])
                 else [])
        | _ \<Rightarrow> [ConsoleError ''Failed to copy:''])"
  by (simp add: copyBranch_def emit_def Let_def split: outcome.splits option.splits)

lemma pasteBranch_trace:
  "trace (pasteBranch s a) =
     trace s @ ClipboardReadText #
       (case readTextResult a of
          Rejected \<Rightarrow> [ConsoleError ''Failed to paste:'']
        | Resolved t \<Rightarrow>
            Fetch (POST ''/event'' (ClipboardPaste (sessionId s) t)) #
              (case fetchResult a of Resolved _ \<Rightarrow> []
                                   | Rejected \<Rightarrow> [ConsoleError ''Failed to paste:'']))"
  by (simp add: pasteBranch_def try_fetch_def emit_def Let_def split: outcome.splits)

lemma copyBranch_frame: "(copyBranch s a)\<lparr>trace := trace s\<rparr> = s"
  by (simp add: copyBranch_def emit_def Let_def split: outcome.splits option.splits)

lemma pasteBranch_frame: "(pasteBranch s a)\<lparr>trace := trace s\<rparr> = s"
  by (simp add: pasteBranch_def try_fetch_def emit_def Let_def split: outcome.splits)

text \<open>
  C7, as the code has it: on a key-down with ctrl or meta and the key \<^verbatim>\<open>c\<close> or \<^verbatim>\<open>v\<close>,
  with a session, the handler appends effects \<open>new\<close> to the trace such that
  \<^item> in the copy branch the first effect is the one request, the clipboard request with the
    action copy. Let \<open>text\<close> be the value of \<^verbatim>\<open>data.text\<close> when the handler gets to read
    one (the request and \<^verbatim>\<open>response.json()\<close> are fulfilled and the data is not
    \<^verbatim>\<open>null\<close>). \<^verbatim>\<open>writeText\<close> is called, once and with that value, exactly when the
    value is truthy, of whatever type; the system clipboard receives the value exactly when
    moreover that call is fulfilled. The failure is logged, with one message, exactly when
    there is no such value or the call of \<^verbatim>\<open>writeText\<close> is rejected;
  \<^item> in the paste branch the first effect is the read of the local clipboard; the clipboard
    request with the action paste and the text read is sent when the read is fulfilled, and
    no request when it is rejected; nothing is written to the clipboard; the failure is
    logged, with one message, exactly when the read or the request is rejected;
  \<^item> the read, the requests, the writes and the messages are all the effects there are:
    neither branch calls \<^verbatim>\<open>preventDefault\<close>, no rejection leaves the handler, and
    nothing of the component's state changes.
\<close>

theorem clipboard_bridge:
  assumes "\<not> no_session s" and "ctrlKey e \<or> metaKey e" and "key e = ''c'' \<or> key e = ''v''"
  shows "\<exists>new. trace (handleKeyDown s e a) = trace s @ new
       \<and> (key e = ''c'' \<longrightarrow>
            (let text = (case fetchResult a of Resolved (Resolved data) \<Rightarrow> dot_text data
                                             | _ \<Rightarrow> None);
                 copied = (case text of Some v \<Rightarrow> truthy v | None \<Rightarrow> False)
             in (\<exists>es. new = Fetch (POST ''/event'' (ClipboardCopy (sessionId s))) # es)
              \<and> requests_of new = [POST ''/event'' (ClipboardCopy (sessionId s))]
              \<and> writeText_calls new =
                  (case text of Some v \<Rightarrow> if truthy v then [(v, writeTextResult a)] else []
                              | None \<Rightarrow> [])
              \<and> writes_of new =
                  (case text of
                     Some v \<Rightarrow> if truthy v \<and> writeTextResult a = Resolved () then [v] else []
                   | None \<Rightarrow> [])
              \<and> logs_of new =
                  (if text = None \<or> (copied \<and> writeTextResult a = Rejected)
                   then [''Failed to copy:''] else [])))
       \<and> (key e = ''v'' \<longrightarrow>
            (\<exists>es. new = ClipboardReadText # es)
          \<and> requests_of new =
              (case readTextResult a of
                 Resolved t \<Rightarrow> [POST ''/event'' (ClipboardPaste (sessionId s) t)]
               | Rejected \<Rightarrow> [])
          \<and> writeText_calls new = []
          \<and> logs_of new =
              (if readTextResult a = Rejected \<or> fetchResult a = Rejected
               then [''Failed to paste:''] else []))
       \<and> length new =
           (if key e = ''v'' then 1 else 0) + length (requests_of new)
             + length (writeText_calls new) + length (logs_of new)
       \<and> PreventDefault \<notin> set new
       \<and> UnhandledRejection \<notin> set new
       \<and> (handleKeyDown s e a)\<lparr>trace := trace s\<rparr> = s"
proof (cases "key e = ''c''")
  case True
  with assms have h: "handleKeyDown s e a = copyBranch s a"
    by (simp add: keydown_copy)
  show ?thesis
    unfolding h using True
    by (simp add: copyBranch_trace copyBranch_frame writes_of_def Let_def
          split: outcome.splits option.splits)
next
  case False
  with assms have v: "key e = ''v''" by simp
  with assms have h: "handleKeyDown s e a = pasteBranch s a"
    by (simp add: keydown_paste)
  show ?thesis
    unfolding h using v
    by (simp add: pasteBranch_trace pasteBranch_frame split: outcome.splits)
qed

theorem clipboard_bridge_witness:
  "\<not> no_session connected
   \<and> writeText_calls (trace (handleKeyDown connected
        \<lparr>key = ''c'', ctrlKey = True, altKey = False, shiftKey = False, metaKey = False\<rparr>
        \<lparr>fetchResult = Resolved (Resolved (JsObject [(''text'', JsNumber (Finite 5))])),
         readTextResult = Rejected, writeTextResult = Resolved ()\<rparr>)) =
       [(JsNumber (Finite 5), Resolved ())]
   \<and> writes_of (trace (handleKeyDown connected
        \<lparr>key = ''c'', ctrlKey = True, altKey = False, shiftKey = False, metaKey = False\<rparr>
        \<lparr>fetchResult = Resolved (Resolved (JsObject [(''text'', JsNumber (Finite 5))])),
         readTextResult = Rejected, writeTextResult = Resolved ()\<rparr>)) = [JsNumber (Finite 5)]
   \<and> writes_of (trace (handleKeyDown connected
        \<lparr>key = ''c'', ctrlKey = True, altKey = False, shiftKey = False, metaKey = False\<rparr>
        \<lparr>fetchResult = Resolved (Resolved (JsObject [(''text'', JsString ''remote'')])),
         readTextResult = Rejected, writeTextResult = Rejected\<rparr>)) = []
   \<and> logs_of (trace (handleKeyDown connected
        \<lparr>key = ''c'', ctrlKey = True, altKey = False, shiftKey = False, metaKey = False\<rparr>
        \<lparr>fetchResult = Resolved (Resolved (JsObject [(''text'', JsString ''remote'')])),
         readTextResult = Rejected, writeTextResult = Rejected\<rparr>)) = [''Failed to copy:'']
   \<and> requests_of (trace (handleKeyDown connected
        \<lparr>key = ''v'', ctrlKey = False, altKey = False, shiftKey = False, metaKey = True\<rparr>
        \<lparr>fetchResult = Rejected, readTextResult = Resolved ''local'',
         writeTextResult = Rejected\<rparr>)) =
       [POST ''/event'' (ClipboardPaste (Some ''abc'') ''local'')]
   \<and> logs_of (trace (handleKeyDown connected
        \<lparr>key = ''v'', ctrlKey = False, altKey = False, shiftKey = False, metaKey = True\<rparr>
        \<lparr>fetchResult = Rejected, readTextResult = Resolved ''local'',
         writeTextResult = Rejected\<rparr>)) = [''Failed to paste:'']"
proof -
  have t: "trace connected = []" "sessionId connected = Some ''abc''"
    by (simp_all add: connected_def initial_def)
  from clipboard_bridge [OF connected_session,
      of "\<lparr>key = ''c'', ctrlKey = True, altKey = False, shiftKey = False, metaKey = False\<rparr>"
         "\<lparr>fetchResult = Resolved (Resolved (JsObject [(''text'', JsNumber (Finite 5))])),
           readTextResult = Rejected, writeTextResult = Resolved ()\<rparr>"]
  have a: "writeText_calls (trace (handleKeyDown connected
        \<lparr>key = ''c'', ctrlKey = True, altKey = False, shiftKey = False, metaKey = False\<rparr>
        \<lparr>fetchResult = Resolved (Resolved (JsObject [(''text'', JsNumber (Finite 5))])),
         readTextResult = Rejected, writeTextResult = Resolved ()\<rparr>)) =
       [(JsNumber (Finite 5), Resolved ())]"
    and b: "writes_of (trace (handleKeyDown connected
        \<lparr>key = ''c'', ctrlKey = True, altKey = False, shiftKey = False, metaKey = False\<rparr>
        \<lparr>fetchResult = Resolved (Resolved (JsObject [(''text'', JsNumber (Finite 5))])),
         readTextResult = Rejected, writeTextResult = Resolved ()\<rparr>)) = [JsNumber (Finite 5)]"
    by (auto simp: t Let_def)
  from clipboard_bridge [OF connected_session,
      of "\<lparr>key = ''c'', ctrlKey = True, altKey = False, shiftKey = False, metaKey = False\<rparr>"
         "\<lparr>fetchResult = Resolved (Resolved (JsObject [(''text'', JsString ''remote'')])),
           readTextResult = Rejected, writeTextResult = Rejected\<rparr>"]
  have c: "writes_of (trace (handleKeyDown connected
        \<lparr>key = ''c'', ctrlKey = True, altKey = False, shiftKey = False, metaKey = False\<rparr>
        \<lparr>fetchResult = Resolved (Resolved (JsObject [(''text'', JsString ''remote'')])),
         readTextResult = Rejected, writeTextResult = Rejected\<rparr>)) = []"
    and d: "logs_of (trace (handleKeyDown connected
        \<lparr>key = ''c'', ctrlKey = True, altKey = False, shiftKey = False, metaKey = False\<rparr>
        \<lparr>fetchResult = Resolved (Resolved (JsObject [(''text'', JsString ''remote'')])),
         readTextResult = Rejected, writeTextResult = Rejected\<rparr>)) = [''Failed to copy:'']"
    by (auto simp: t Let_def)
  from clipboard_bridge [OF connected_session,
      of "\<lparr>key = ''v'', ctrlKey = False, altKey = False, shiftKey = False, metaKey = True\<rparr>"
         "\<lparr>fetchResult = Rejected, readTextResult = Resolved ''local'',
           writeTextResult = Rejected\<rparr>"]
  have f: "requests_of (trace (handleKeyDown connected
        \<lparr>key = ''v'', ctrlKey = False, altKey = False, shiftKey = False, metaKey = True\<rparr>
        \<lparr>fetchResult = Rejected, readTextResult = Resolved ''local'',
         writeTextResult = Rejected\<rparr>)) =
       [POST ''/event'' (ClipboardPaste (Some ''abc'') ''local'')]"
    and g: "logs_of (trace (handleKeyDown connected
        \<lparr>key = ''v'', ctrlKey = False, altKey = False, shiftKey = False, metaKey = True\<rparr>
        \<lparr>fetchResult = Rejected, readTextResult = Resolved ''local'',
         writeTextResult = Rejected\<rparr>)) = [''Failed to paste:'']"
    by (auto simp: t)
  from connected_session a b c d f g show ?thesis
    by blast
qed

text \<open>
  C7 as the specification words it fails where it says that the default key handling is
  suppressed: the key handler never calls \<^verbatim>\<open>preventDefault\<close>. For ctrl+c with a
  response that carries a text, all the handler does is the request and the clipboard write.
\<close>

theorem keydown_copy_default_not_prevented:
  "trace (handleKeyDown connected
      \<lparr>key = ''c'', ctrlKey = True, altKey = False, shiftKey = False, metaKey = False\<rparr>
      \<lparr>fetchResult = Resolved (Resolved (JsObject [(''text'', JsString ''remote'')])),
       readTextResult = Rejected, writeTextResult = Resolved ()\<rparr>) =
     [Fetch (POST ''/event'' (ClipboardCopy (Some ''abc''))),
      ClipboardWriteText (JsString ''remote'') (Resolved ())]
   \<and> PreventDefault \<notin> set (trace (handleKeyDown connected
      \<lparr>key = ''c'', ctrlKey = True, altKey = False, shiftKey = False, metaKey = False\<rparr>
      \<lparr>fetchResult = Resolved (Resolved (JsObject [(''text'', JsString ''remote'')])),
       readTextResult = Rejected, writeTextResult = Resolved ()\<rparr>))"
  by (simp add: handleKeyDown_def copyBranch_def connected_def initial_def no_session_def
        emit_def Let_def)

text \<open>
  C9, as the code has it: on such a key-down the requests sent are, for \<^verbatim>\<open>c\<close>, the one
  clipboard request of the copy branch, and for \<^verbatim>\<open>v\<close> the one clipboard request of the
  paste branch when the local clipboard could be read and none when it could not; a
  keyboard request is never among them.
\<close>

theorem clipboard_shortcut_requests:
  assumes "\<not> no_session s" and "ctrlKey e \<or> metaKey e" and "key e = ''c'' \<or> key e = ''v''"
  shows "requests_of (trace (handleKeyDown s e a)) =
           requests_of (trace s) @
             (if key e = ''c'' then [POST ''/event'' (ClipboardCopy (sessionId s))]
              else case readTextResult a of
                     Resolved t \<Rightarrow> [POST ''/event'' (ClipboardPaste (sessionId s) t)]
                   | Rejected \<Rightarrow> [])
       \<and> (\<forall>i k c al sh m. Fetch (POST ''/event'' (Keyboard i k c al sh m))
              \<notin> set (drop (length (trace s)) (trace (handleKeyDown s e a))))"
proof (cases "key e = ''c''")
  case True
  with assms have h: "handleKeyDown s e a = copyBranch s a"
    by (simp add: keydown_copy)
  show ?thesis
    unfolding h using True
    by (simp add: copyBranch_trace requests_of_append
          split: outcome.splits option.splits)
next
  case False
  with assms have v: "key e = ''v''" by simp
  with assms have h: "handleKeyDown s e a = pasteBranch s a"
    by (simp add: keydown_paste)
  show ?thesis
    unfolding h using False
    by (simp add: pasteBranch_trace requests_of_append split: outcome.splits)
qed

theorem clipboard_shortcut_requests_witness:
  "\<not> no_session connected
   \<and> requests_of (trace (handleKeyDown connected
        \<lparr>key = ''c'', ctrlKey = True, altKey = False, shiftKey = False, metaKey = False\<rparr>
        \<lparr>fetchResult = Rejected, readTextResult = Rejected, writeTextResult = Rejected\<rparr>)) =
       [POST ''/event'' (ClipboardCopy (Some ''abc''))]
   \<and> requests_of (trace (handleKeyDown connected
        \<lparr>key = ''v'', ctrlKey = True, altKey = False, shiftKey = False, metaKey = False\<rparr>
        \<lparr>fetchResult = Rejected, readTextResult = Resolved ''local'',
         writeTextResult = Rejected\<rparr>)) =
       [POST ''/event'' (ClipboardPaste (Some ''abc'') ''local'')]"
  using connected_session
    clipboard_shortcut_requests [OF connected_session,
      of "\<lparr>key = ''c'', ctrlKey = True, altKey = False, shiftKey = False, metaKey = False\<rparr>"
         "\<lparr>fetchResult = Rejected, readTextResult = Rejected, writeTextResult = Rejected\<rparr>"]
    clipboard_shortcut_requests [OF connected_session,
      of "\<lparr>key = ''v'', ctrlKey = True, altKey = False, shiftKey = False, metaKey = False\<rparr>"
         "\<lparr>fetchResult = Rejected, readTextResult = Resolved ''local'',
           writeTextResult = Rejected\<rparr>"]
  by (simp add: connected_def initial_def)

text \<open>
  C9 as the specification words it fails for a paste whose clipboard read is rejected (a
  denied permission, say): no clipboard request is sent.
\<close>

theorem paste_denied_sends_nothing:
  "requests_of (trace (handleKeyDown connected
      \<lparr>key = ''v'', ctrlKey = True, altKey = False, shiftKey = False, metaKey = False\<rparr>
      \<lparr>fetchResult = Resolved (Resolved JsNull), readTextResult = Rejected,
       writeTextResult = Resolved ()\<rparr>)) = []"
  by (simp add: handleKeyDown_def pasteBranch_def connected_def initial_def no_session_def
        emit_def Let_def)

subsection \<open>The address bar\<close>

text \<open>The test by derivatives decides membership in the language of the pattern.\<close>

lemma lang_SeqI: "u \<in> lang r \<Longrightarrow> v \<in> lang s \<Longrightarrow> u @ v \<in> lang (Seq r s)"
  by auto

lemma nullable_lang: "nullable r \<longleftrightarrow> [] \<in> lang r"
  by (induction r) (auto intro: star_empty)

lemma star_split:
  assumes "x \<in> star A" and "x = c # w"
  shows "\<exists>u v. w = u @ v \<and> c # u \<in> A \<and> v \<in> star A"
  using assms
proof (induction arbitrary: w rule: star.induct)
  case star_empty
  then show ?case by simp
next
  case (star_more u v)
  show ?case
  proof (cases u)
    case Nil
    with star_more.prems have "v = c # w" by simp
    then show ?thesis by (rule star_more.IH)
  next
    case (Cons d u')
    with star_more.prems have "d = c" and "w = u' @ v" by simp_all
    with Cons star_more.hyps show ?thesis by blast
  qed
qed

lemma star_cons: "c # w \<in> star A \<longleftrightarrow> (\<exists>u v. w = u @ v \<and> c # u \<in> A \<and> v \<in> star A)"
proof
  assume "c # w \<in> star A"
  then show "\<exists>u v. w = u @ v \<and> c # u \<in> A \<and> v \<in> star A"
    by (rule star_split) simp
next
  assume "\<exists>u v. w = u @ v \<and> c # u \<in> A \<and> v \<in> star A"
  then obtain u v where "w = u @ v" "c # u \<in> A" "v \<in> star A" by blast
  then show "c # w \<in> star A"
    using star_more [of "c # u" A v] by simp
qed

lemma deriv_lang: "w \<in> lang (deriv c r) \<longleftrightarrow> c # w \<in> lang r"
proof (induction r arbitrary: w)
  case (Seq r s)
  show ?case
  proof
    assume "w \<in> lang (deriv c (Seq r s))"
    then consider u v where "w = u @ v" "u \<in> lang (deriv c r)" "v \<in> lang s"
      | "nullable r" "w \<in> lang (deriv c s)"
      by (auto split: if_splits)
    then show "c # w \<in> lang (Seq r s)"
    proof cases
      case 1
      then have "c # u \<in> lang r" by (simp add: Seq.IH)
      from lang_SeqI [OF this 1(3)] 1(1) show ?thesis by simp
    next
      case 2
      then have "[] \<in> lang r" "c # w \<in> lang s" by (simp_all add: nullable_lang Seq.IH)
      from lang_SeqI [OF this] show ?thesis by simp
    qed
  next
    assume "c # w \<in> lang (Seq r s)"
    then obtain u v where uv: "c # w = u @ v" "u \<in> lang r" "v \<in> lang s" by auto
    show "w \<in> lang (deriv c (Seq r s))"
    proof (cases u)
      case Nil
      with uv have "nullable r" "w \<in> lang (deriv c s)"
        by (simp_all add: nullable_lang Seq.IH)
      then show ?thesis by simp
    next
      case (Cons d u')
      with uv have "c # u' \<in> lang r" and w: "w = u' @ v"
        by simp_all
      then have "u' \<in> lang (deriv c r)"
        by (simp add: Seq.IH)
      from lang_SeqI [OF this uv(3)] w show ?thesis by simp
    qed
  qed
next
  case (Star r)
  show ?case
    by (auto simp: star_cons Star.IH)
qed (auto simp: list_ex_iff)

lemma foldl_deriv_lang: "[] \<in> lang (foldl (\<lambda>r c. deriv c r) r xs) \<longleftrightarrow> xs \<in> lang r"
  by (induction xs arbitrary: r) (simp_all add: deriv_lang)

lemma regex_test_lang: "regex_test r xs \<longleftrightarrow> xs \<in> lang r"
  by (simp add: regex_test_def nullable_lang foldl_deriv_lang)

text \<open>With a session, a submit sends one navigate request; its URL is built from the text.\<close>

lemma submit_requests:
  assumes "\<not> no_session s"
  shows "requests_of (trace (handleSubmit s r)) =
           requests_of (trace s) @
             [POST ''/event''
                (Navigate (sessionId s)
                   (if regex_test urlPattern (trim (url s))
                    then (if startsWith (trim (url s)) ''http'' then trim (url s)
                          else ''https://'' @ trim (url s))
                    else ''https://www.google.com/search?q='' @ encodeURIComponent (trim (url s))))]"
  using assms
  by (cases r)
     (simp_all add: handleSubmit_def navigate_def no_session_def emit_def Let_def requests_of_append)

lemma httpbin_is_url: "regex_test urlPattern ''httpbin.org''"
  by (simp add: regex_test_def urlPattern_def Opt_def Plus_def isWordChar_def)

lemma example_com_is_url: "regex_test urlPattern ''example.com''"
  by (simp add: regex_test_def urlPattern_def Opt_def Plus_def isWordChar_def)

lemma buy_milk_is_query: "\<not> regex_test urlPattern ''buy milk''"
  by (simp add: regex_test_def urlPattern_def Opt_def Plus_def isWordChar_def)

lemma buy_milk_encoded: "encodeURIComponent ''buy milk'' = ''buy%20milk''"
  by (simp add: encodeURIComponent_def encodeChar_def unreserved_def percent_def hexDigit_def)

lemma trim_examples:
  "trim ''httpbin.org'' = ''httpbin.org''" "trim ''example.com'' = ''example.com''"
  "trim ''buy milk'' = ''buy milk''" "trim ''  example.com '' = ''example.com''"
  by (simp_all add: trim_def isWhiteSpace_def)

text \<open>
  C6 at the input \<^verbatim>\<open>httpbin.org\<close>: the text matches the pattern and has no scheme, but
  it starts with \<^verbatim>\<open>http\<close>, so the code navigates to the text as it is, without
  \<^verbatim>\<open>https://\<close> in front.
\<close>

theorem submit_httpbin_without_scheme:
  "regex_test urlPattern ''httpbin.org''
   \<and> \<not> startsWith ''httpbin.org'' ''http://'' \<and> \<not> startsWith ''httpbin.org'' ''https://''
   \<and> requests_of (trace (handleSubmit (connected\<lparr>url := ''httpbin.org''\<rparr>) r)) =
       [POST ''/event'' (Navigate (Some ''abc'') ''httpbin.org'')]"
proof -
  have s: "\<not> no_session (connected\<lparr>url := ''httpbin.org''\<rparr>)"
    by (simp add: connected_def initial_def no_session_def)
  show ?thesis
    using submit_requests [OF s, of r] httpbin_is_url
    by (simp add: trim_examples startsWith_def connected_def initial_def)
qed

text \<open>The two examples of the specification.\<close>

lemma submit_examples:
  "requests_of (trace (handleSubmit (connected\<lparr>url := ''example.com''\<rparr>) r)) =
     [POST ''/event'' (Navigate (Some ''abc'') ''https://example.com'')]"
  "requests_of (trace (handleSubmit (connected\<lparr>url := ''buy milk''\<rparr>) r)) =
     [POST ''/event'' (Navigate (Some ''abc'') ''https://www.google.com/search?q=buy%20milk'')]"
proof -
  have s: "\<not> no_session (connected\<lparr>url := u\<rparr>)" for u
    by (simp add: connected_def initial_def no_session_def)
  show "requests_of (trace (handleSubmit (connected\<lparr>url := ''example.com''\<rparr>) r)) =
     [POST ''/event'' (Navigate (Some ''abc'') ''https://example.com'')]"
    using submit_requests [OF s, of "''example.com''" r] example_com_is_url
    by (simp add: trim_examples startsWith_def connected_def initial_def)
  show "requests_of (trace (handleSubmit (connected\<lparr>url := ''buy milk''\<rparr>) r)) =
     [POST ''/event'' (Navigate (Some ''abc'') ''https://www.google.com/search?q=buy%20milk'')]"
    using submit_requests [OF s, of "''buy milk''" r] buy_milk_is_query
    by (simp add: trim_examples buy_milk_encoded connected_def initial_def)
qed


end
